theory Spec2Isabelle
  imports Main "HOL-Library.Word"
begin

unbundle bit_operations_syntax

section \<open>Bytes, strings, errors\<close>

text \<open>
  A Go \<open>string\<close> is a sequence of bytes, and so is an Isabelle \<open>string\<close> (a list of
  8-bit characters); \<open>len(s)\<close> is \<open>length s\<close>.  A \<open>[]byte\<close> is a list of 8-bit words.
  The conversions \<open>[]byte(s)\<close> and \<open>string(b)\<close> copy the bytes.
\<close>

type_synonym byte = "8 word"
type_synonym bytes = "byte list"

definition bytes_of_string :: "string \<Rightarrow> bytes" where
  "bytes_of_string s = map (\<lambda>c. of_char c) s"

definition string_of_bytes :: "bytes \<Rightarrow> string" where
  "string_of_bytes b = map (\<lambda>w. char_of (unat w)) b"

text \<open>
  The \<open>error\<close> values that reach this package: its own sentinels (users.go, the
  \<open>var\<close> block), \<open>sql.ErrNoRows\<close>, the errors of \<open>bcrypt\<close>, and every other failure of a
  collaborator (the database driver, the context's deadline, the random source), which
  the code passes on uninterpreted and the model keeps as an opaque message.
\<close>

datatype go_error =
    ErrDuplicateEmail
  | ErrDuplicateUsername
  | ErrEditConflict
  | ErrRecordNotFound
  | SqlErrNoRows
  | ErrMismatchedHashAndPassword
  | ErrHashTooShort
  | ErrPasswordTooLong
  | InvalidHashPrefixError byte
  | HashVersionTooNewError byte
  | InvalidCostError int
  | StrconvSyntaxError string
  | CorruptInputError
  | KeySizeError int
  | OtherError string

text \<open>\<open>errors.Is(err, target)\<close> for these unwrapped values is equality.\<close>

definition errors_Is :: "go_error \<Rightarrow> go_error \<Rightarrow> bool" where
  "errors_Is err target = (err = target)"

section \<open>encoding/base32: StdEncoding.WithPadding(NoPadding).EncodeToString\<close>

definition encodeStd :: string where
  "encodeStd = ''ABCDEFGHIJKLMNOPQRSTUVWXYZ234567''"

definition enc32 :: "byte \<Rightarrow> char" where
  "enc32 b = encodeStd ! unat (b AND 31)"

text \<open>
  One quantum of the encoder: up to five source bytes give up to eight 5-bit groups
  \<open>b[0..7]\<close>, computed as the library's \<open>switch\<close> with fall-through does; without
  padding only the groups that hold source bits are written (2, 4, 5 or 7 characters
  for a final quantum of 1, 2, 3 or 4 bytes).
\<close>

fun base32_EncodeToString :: "bytes \<Rightarrow> string" where
  "base32_EncodeToString (s0 # s1 # s2 # s3 # s4 # rest) =
     map enc32
       [drop_bit 3 s0,
        (drop_bit 6 s1 AND 31) OR (push_bit 2 s0 AND 31),
        drop_bit 1 s1 AND 31,
        (push_bit 4 s1 AND 31) OR (drop_bit 4 s2 AND 31),
        drop_bit 7 s3 OR (push_bit 1 s2 AND 31),
        drop_bit 2 s3 AND 31,
        drop_bit 5 s4 OR (push_bit 3 s3 AND 31),
        s4 AND 31]
     @ base32_EncodeToString rest"
| "base32_EncodeToString [s0, s1, s2, s3] =
     map enc32
       [drop_bit 3 s0,
        (drop_bit 6 s1 AND 31) OR (push_bit 2 s0 AND 31),
        drop_bit 1 s1 AND 31,
        (push_bit 4 s1 AND 31) OR (drop_bit 4 s2 AND 31),
        drop_bit 7 s3 OR (push_bit 1 s2 AND 31),
        drop_bit 2 s3 AND 31,
        push_bit 3 s3 AND 31]"
| "base32_EncodeToString [s0, s1, s2] =
     map enc32
       [drop_bit 3 s0,
        (drop_bit 6 s1 AND 31) OR (push_bit 2 s0 AND 31),
        drop_bit 1 s1 AND 31,
        (push_bit 4 s1 AND 31) OR (drop_bit 4 s2 AND 31),
        push_bit 1 s2 AND 31]"
| "base32_EncodeToString [s0, s1] =
     map enc32
       [drop_bit 3 s0,
        (drop_bit 6 s1 AND 31) OR (push_bit 2 s0 AND 31),
        drop_bit 1 s1 AND 31,
        push_bit 4 s1 AND 31]"
| "base32_EncodeToString [s0] =
     map enc32 [drop_bit 3 s0, push_bit 2 s0 AND 31]"
| "base32_EncodeToString [] = []"

section \<open>The world the package runs in\<close>

text \<open>
  Time is a count of nanoseconds; a \<open>time.Duration\<close> is a signed 64-bit count of
  nanoseconds, and \<open>t.Add(d)\<close> adds it.  (A \<open>time.Time\<close> reaches hundreds of billions
  of years either way, where \<open>Add\<close> saturates; no clock reading plus a duration, which
  is at most some 292 years, comes near.)
\<close>

type_synonym time = int
type_synonym duration = "64 word"

definition time_Add :: "time \<Rightarrow> duration \<Rightarrow> time" where
  "time_Add t d = t + sint d"

text \<open>The rows of the two tables the package reads and writes.\<close>

record token_row =
  row_hash :: bytes
  row_uuid :: string
  row_expiry :: time
  row_scope :: string

record user_row =
  col_uuid :: string
  col_created_at :: time
  col_username :: string
  col_email :: string
  col_password_hash :: bytes
  col_activated :: bool
  col_version :: int

text \<open>What the package asks of its collaborators, in the order it asks.\<close>

datatype event =
    RandRead nat
  | Sha256Sum bytes
  | ExecInsertToken token_row
  | ExecDeleteTokens string string
  | QueryUserForToken bytes string time

text \<open>
  The state outside the package: the clock, the secure random source (which either
  fails or yields the bytes of \<open>entropy\<close> from \<open>rand_pos\<close> on), the database (its two
  tables, and \<open>db_fault\<close>: the error with which the driver or the three-second context
  fails the next statement, if it does), and the log of requests made so far.
\<close>

record world =
  now :: time
  rand_fault :: "go_error option"
  entropy :: "nat \<Rightarrow> byte"
  rand_pos :: nat
  db_fault :: "go_error option"
  tokens_table :: "token_row list"
  users_table :: "user_row list"
  requests :: "event list"

text \<open>\<open>rand.Read(b)\<close> for a buffer of \<open>n\<close> bytes: fills it entirely or fails.\<close>

definition rand_Read :: "nat \<Rightarrow> world \<Rightarrow> (go_error + bytes) \<times> world" where
  "rand_Read n w =
     (let w' = w\<lparr>requests := requests w @ [RandRead n]\<rparr> in
      case rand_fault w of
        Some e \<Rightarrow> (Inl e, w')
      | None \<Rightarrow> (Inr (map (entropy w) [rand_pos w ..< rand_pos w + n]),
                 w'\<lparr>rand_pos := rand_pos w + n\<rparr>))"

text \<open>
  \<open>sha256.Sum256\<close> is the library's; the package only calls it.  It is a parameter
  \<open>H\<close> of every operation that hashes, and each call is logged.
\<close>

definition sha256_Sum256 :: "(bytes \<Rightarrow> bytes) \<Rightarrow> bytes \<Rightarrow> world \<Rightarrow> bytes \<times> world" where
  "sha256_Sum256 H b w = (H b, w\<lparr>requests := requests w @ [Sha256Sum b]\<rparr>)"

section \<open>internal/validator\<close>

text \<open>
  Modelled from the spec: the package \<open>internal/validator\<close> is not among the sources;
  only its calls are.  The spec's error taxonomy has a \<open>ValidationError\<close> for "malformed
  input caught before touching crypto/persistence", and the checks below are its
  conditions.  The validator keeps at most one message per key, the first one recorded;
  \<open>Check\<close> records its message when the condition is false; the input is valid while no
  message is recorded.
\<close>

record Validator =
  Errors :: "(string \<times> string) list"

definition validator_New :: Validator where
  "validator_New = \<lparr>Errors = []\<rparr>"

definition Valid :: "Validator \<Rightarrow> bool" where
  "Valid v = (length (Errors v) = 0)"

definition AddError :: "Validator \<Rightarrow> string \<Rightarrow> string \<Rightarrow> Validator" where
  "AddError v key message =
     (if map_of (Errors v) key = None then v\<lparr>Errors := Errors v @ [(key, message)]\<rparr> else v)"

definition Check :: "Validator \<Rightarrow> bool \<Rightarrow> string \<Rightarrow> string \<Rightarrow> Validator" where
  "Check v ok key message = (if \<not> ok then AddError v key message else v)"

section \<open>users.go: the types\<close>

text \<open>
  A \<open>*string\<close> and a \<open>[]byte\<close> can be \<open>nil\<close>: \<open>None\<close>.  An empty but allocated slice is
  \<open>Some []\<close>.
\<close>

record password =
  plaintext :: "string option"
  hash :: "bytes option"

record User =
  UUID :: string
  Username :: string
  CreatedAt :: time
  Email :: string
  Password :: password
  Activated :: bool
  Version :: int

text \<open>The zero value \<open>User{}\<close>.\<close>

definition User_zero :: User where
  "User_zero = \<lparr>UUID = [], Username = [], CreatedAt = 0, Email = [],
                 Password = \<lparr>plaintext = None, hash = None\<rparr>, Activated = False, Version = 0\<rparr>"

section \<open>tokens.go\<close>

record Token =
  Plaintext :: string
  Hash :: bytes
  UUID :: string
  Expiry :: time
  Scope :: string

definition ScopeActivation :: string where "ScopeActivation = ''activation''"
definition ScopeAuthentication :: string where "ScopeAuthentication = ''authentication''"
definition ScopePasswordReset :: string where "ScopePasswordReset = ''password-reset''"

definition generateToken ::
  "(bytes \<Rightarrow> bytes) \<Rightarrow> string \<Rightarrow> duration \<Rightarrow> string \<Rightarrow> world \<Rightarrow> (go_error + Token) \<times> world" where
  "generateToken H uuid ttl scope w =
     (let token = \<lparr>Plaintext = [], Hash = [], UUID = uuid,
                   Expiry = time_Add (now w) ttl, Scope = scope\<rparr> in
      case rand_Read 16 w of
        (Inl err, w1) \<Rightarrow> (Inl err, w1)
      | (Inr randomBytes, w1) \<Rightarrow>
          (let token = token\<lparr>Plaintext := base32_EncodeToString randomBytes\<rparr>;
               (hash, w2) = sha256_Sum256 H (bytes_of_string (Plaintext token)) w1;
               token = token\<lparr>Hash := hash\<rparr>
           in (Inr token, w2)))"

definition ValidateTokenPlaintext :: "Validator \<Rightarrow> string \<Rightarrow> Validator" where
  "ValidateTokenPlaintext v tokenPlaintext =
     (let v = Check v (tokenPlaintext \<noteq> []) ''token'' ''must be provided'';
          v = Check v (length tokenPlaintext = 26) ''token'' ''must be 26 bytes long''
      in v)"

text \<open>
  \<open>Insert\<close> runs one \<open>INSERT\<close> statement with the token's hash, owner, expiry and scope;
  the statement either fails, leaving the table as it was, or adds the row.
\<close>

definition Insert :: "Token \<Rightarrow> world \<Rightarrow> go_error option \<times> world" where
  "Insert token w =
     (let args = \<lparr>row_hash = Hash token, row_uuid = Token.UUID token,
                  row_expiry = Expiry token, row_scope = Scope token\<rparr>;
          w1 = w\<lparr>requests := requests w @ [ExecInsertToken args]\<rparr>
      in case db_fault w of
           Some err \<Rightarrow> (Some err, w1)
         | None \<Rightarrow> (None, w1\<lparr>tokens_table := tokens_table w @ [args]\<rparr>))"

text \<open>\<open>New\<close> returns the pair \<open>(*Token, error)\<close>; a \<open>nil\<close> pointer or error is \<open>None\<close>.\<close>

definition New ::
  "(bytes \<Rightarrow> bytes) \<Rightarrow> string \<Rightarrow> duration \<Rightarrow> string \<Rightarrow> world
     \<Rightarrow> (Token option \<times> go_error option) \<times> world" where
  "New H uuid ttl scope w =
     (case generateToken H uuid ttl scope w of
        (Inl err, w1) \<Rightarrow> ((None, Some err), w1)
      | (Inr token, w1) \<Rightarrow>
          (let (err, w2) = Insert token w1 in ((Some token, err), w2)))"

definition DeleteAllForUser :: "string \<Rightarrow> string \<Rightarrow> world \<Rightarrow> go_error option \<times> world" where
  "DeleteAllForUser scope uuid w =
     (let w1 = w\<lparr>requests := requests w @ [ExecDeleteTokens scope uuid]\<rparr>
      in case db_fault w of
           Some err \<Rightarrow> (Some err, w1)
         | None \<Rightarrow>
             (None, w1\<lparr>tokens_table :=
                filter (\<lambda>t. \<not> (row_scope t = scope \<and> row_uuid t = uuid)) (tokens_table w)\<rparr>))"

section \<open>users.go: GetForToken\<close>

text \<open>
  The rows of
  \<open>SELECT users.* FROM users INNER JOIN tokens ON users.uuid = tokens.uuid
    WHERE tokens.hash = $1 AND tokens.scope = $2 AND tokens.expiry > $3\<close>.
\<close>

definition token_matches :: "bytes \<Rightarrow> string \<Rightarrow> time \<Rightarrow> token_row \<Rightarrow> bool" where
  "token_matches h scope t r = (row_hash r = h \<and> row_scope r = scope \<and> row_expiry r > t)"

definition select_user_for_token :: "bytes \<Rightarrow> string \<Rightarrow> time \<Rightarrow> world \<Rightarrow> user_row list" where
  "select_user_for_token h scope t w =
     concat (map (\<lambda>u. map (\<lambda>r. u)
                    (filter (\<lambda>r. col_uuid u = row_uuid r \<and> token_matches h scope t r)
                       (tokens_table w)))
               (users_table w))"

text \<open>
  \<open>QueryRowContext(...).Scan(...)\<close>: the driver's or the context's error if the statement
  fails, \<open>sql.ErrNoRows\<close> if it yields no row, and otherwise the first row.
\<close>

definition QueryRow_user_for_token ::
  "bytes \<Rightarrow> string \<Rightarrow> time \<Rightarrow> world \<Rightarrow> (go_error + user_row) \<times> world" where
  "QueryRow_user_for_token h scope t w =
     (let w1 = w\<lparr>requests := requests w @ [QueryUserForToken h scope t]\<rparr>
      in case db_fault w of
           Some err \<Rightarrow> (Inl err, w1)
         | None \<Rightarrow>
             (case select_user_for_token h scope t w of
                [] \<Rightarrow> (Inl SqlErrNoRows, w1)
              | r # _ \<Rightarrow> (Inr r, w1)))"

text \<open>\<open>Scan\<close> fills the seven fields of a fresh \<open>User\<close>; the plaintext pointer stays \<open>nil\<close>.\<close>

definition Scan_user :: "user_row \<Rightarrow> User" where
  "Scan_user r =
     \<lparr>User.UUID = col_uuid r, Username = col_username r, CreatedAt = col_created_at r,
      Email = col_email r,
      Password = \<lparr>plaintext = None, hash = Some (col_password_hash r)\<rparr>,
      Activated = col_activated r, Version = col_version r\<rparr>"

definition GetForToken ::
  "(bytes \<Rightarrow> bytes) \<Rightarrow> string \<Rightarrow> string \<Rightarrow> world \<Rightarrow> (go_error + User) \<times> world" where
  "GetForToken H tokenScope tokenPlaintext w =
     (let (tokenHash, w1) = sha256_Sum256 H (bytes_of_string tokenPlaintext) w
      in case QueryRow_user_for_token tokenHash tokenScope (now w1) w1 of
           (Inl err, w2) \<Rightarrow>
             (if errors_Is err SqlErrNoRows then (Inl ErrRecordNotFound, w2)
              else (Inl err, w2))
         | (Inr r, w2) \<Rightarrow> (Inr (Scan_user r), w2))"

text \<open>
  Modelled from the spec: the request handler that verifies a presented token is not
  among the sources.  The spec has the format validation as a "defense before any
  lookup", which must "reject early without touching persistence or the hash
  primitive": the handler validates the plaintext with a fresh validator and calls
  \<open>GetForToken\<close> only when the validator holds no error.
\<close>

definition verify_presented_token ::
  "(bytes \<Rightarrow> bytes) \<Rightarrow> string \<Rightarrow> string \<Rightarrow> world \<Rightarrow> (Validator + (go_error + User)) \<times> world" where
  "verify_presented_token H tokenScope tokenPlaintext w =
     (let v = ValidateTokenPlaintext validator_New tokenPlaintext
      in if \<not> Valid v then (Inl v, w)
         else (case GetForToken H tokenScope tokenPlaintext w of (r, w') \<Rightarrow> (Inr r, w')))"

section \<open>users.go: validation\<close>

text \<open>
  \<open>validator.Matches(email, validator.EmailRX)\<close> is not among the sources either; the
  verdict of the regular expression on a string is the parameter \<open>EmailRX\<close>.
\<close>

definition ValidateEmail :: "(string \<Rightarrow> bool) \<Rightarrow> Validator \<Rightarrow> string \<Rightarrow> Validator" where
  "ValidateEmail EmailRX v email =
     (let v = Check v (email \<noteq> []) ''email'' ''must be provided'';
          v = Check v (EmailRX email) ''email'' ''must be a valid email address''
      in v)"

definition ValidateUsername :: "Validator \<Rightarrow> string \<Rightarrow> Validator" where
  "ValidateUsername v username =
     (let v = Check v (username \<noteq> []) ''username'' ''must be provided'';
          v = Check v (length username \<ge> 3) ''username'' ''must be at least 3 bytes long'';
          v = Check v (length username \<le> 15) ''username'' ''must not be more than 15 bytes long''
      in v)"

definition ValidatePasswordPlaintext :: "Validator \<Rightarrow> string \<Rightarrow> Validator" where
  "ValidatePasswordPlaintext v pw =
     (let v = Check v (pw \<noteq> []) ''password'' ''must be provided'';
          v = Check v (length pw \<ge> 8) ''password'' ''must be at least 8 bytes long'';
          v = Check v (length pw \<le> 72) ''password'' ''must not be more than 72 bytes long''
      in v)"

text \<open>A \<open>panic\<close> ends the call; the other outcome is the validator with what it recorded.\<close>

datatype panic = Panic string

definition ValidateUser :: "(string \<Rightarrow> bool) \<Rightarrow> Validator \<Rightarrow> User \<Rightarrow> panic + Validator" where
  "ValidateUser EmailRX v user =
     (let v = ValidateUsername v (Username user);
          v = ValidateEmail EmailRX v (Email user);
          v = (case plaintext (Password user) of
                 Some p \<Rightarrow> ValidatePasswordPlaintext v p
               | None \<Rightarrow> v)
      in if hash (Password user) = None then Inl (Panic ''missing password hash for user'')
         else Inr v)"

section \<open>users.go: the anonymous user\<close>

text \<open>
  \<open>*User\<close> values are addresses into a store of \<open>User\<close> structs; an allocation takes the
  next free address.  The package's initialisation runs \<open>AnonymousUser = &User{}\<close> first,
  so the store starts with the zero user at address \<open>0\<close>.
\<close>

type_synonym user_ptr = nat
type_synonym user_store = "User list"

definition AnonymousUser :: user_ptr where
  "AnonymousUser = 0"

definition store_init :: user_store where
  "store_init = [User_zero]"

definition new_User :: "user_store \<Rightarrow> User \<Rightarrow> user_ptr \<times> user_store" where
  "new_User st u = (length st, st @ [u])"

definition IsAnonymous :: "user_ptr \<Rightarrow> bool" where
  "IsAnonymous u = (u = AnonymousUser)"

section \<open>tokens.go: the JSON form of a token\<close>

text \<open>
  \<open>encoding/json\<close> writes a struct as an object of its exported fields in declaration
  order, each under the name its tag gives; a field tagged \<open>json:"-"\<close> is left out.
  How a value of a field's type is written (a string with its escapes, a time in
  RFC 3339, which fails for a year outside 0..9999) is the library's: the parameter
  \<open>enc\<close>.
\<close>

datatype field_value =
    VString string | VBytes bytes | VTime time | VBool bool | VInt int | VPassword password

text \<open>The fields of \<open>Token\<close> with their tags, as declared.\<close>

definition Token_fields :: "Token \<Rightarrow> (string \<times> field_value) list" where
  "Token_fields t =
     [(''token'', VString (Plaintext t)),
      (''-'', VBytes (Hash t)),
      (''-'', VString (Token.UUID t)),
      (''expiry'', VTime (Expiry t)),
      (''-'', VString (Scope t))]"

fun encode_members ::
  "(field_value \<Rightarrow> go_error + string) \<Rightarrow> (string \<times> field_value) list \<Rightarrow> go_error + string list" where
  "encode_members enc [] = Inr []"
| "encode_members enc ((tag, v) # fs) =
     (if tag = ''-'' then encode_members enc fs
      else case enc v of
             Inl err \<Rightarrow> Inl err
           | Inr s \<Rightarrow>
               (case encode_members enc fs of
                  Inl err \<Rightarrow> Inl err
                | Inr ms \<Rightarrow> Inr (([CHR 0x22] @ tag @ [CHR 0x22] @ '':'' @ s) # ms)))"

fun join_members :: "string list \<Rightarrow> string" where
  "join_members [] = []"
| "join_members [m] = m"
| "join_members (m # ms) = m @ '','' @ join_members ms"

definition json_Marshal_Token :: "(field_value \<Rightarrow> go_error + string) \<Rightarrow> Token \<Rightarrow> go_error + string" where
  "json_Marshal_Token enc t =
     (case encode_members enc (Token_fields t) of
        Inl err \<Rightarrow> Inl err
      | Inr ms \<Rightarrow> Inr (''{'' @ join_members ms @ ''}''))"

section \<open>golang.org/x/crypto/blowfish\<close>

text \<open>
  The password hash is the library's \<open>bcrypt\<close>, over the library's Blowfish.  Both are
  written out here, because what \<open>Set\<close> and \<open>Matches\<close> return depends on them: on how
  the key is read, how a hash is laid out and parsed, and which calls can fail.  A
  cipher is the P-array of 18 words and four S-boxes of 256 words; it starts from the
  hexadecimal digits of pi.
\<close>

type_synonym u32 = "32 word"

record Cipher =
  cipher_p :: "u32 list"
  cipher_s0 :: "u32 list"
  cipher_s1 :: "u32 list"
  cipher_s2 :: "u32 list"
  cipher_s3 :: "u32 list"

definition init_p :: "u32 list" where
  "init_p =
     [0x243F6A88, 0x85A308D3, 0x13198A2E, 0x03707344, 0xA4093822, 0x299F31D0,
      0x082EFA98, 0xEC4E6C89, 0x452821E6, 0x38D01377, 0xBE5466CF, 0x34E90C6C,
      0xC0AC29B7, 0xC97C50DD, 0x3F84D5B5, 0xB5470917, 0x9216D5D9, 0x8979FB1B]"

definition init_s0 :: "u32 list" where
  "init_s0 =
     [0xD1310BA6, 0x98DFB5AC, 0x2FFD72DB, 0xD01ADFB7, 0xB8E1AFED, 0x6A267E96,
      0xBA7C9045, 0xF12C7F99, 0x24A19947, 0xB3916CF7, 0x0801F2E2, 0x858EFC16,
      0x636920D8, 0x71574E69, 0xA458FEA3, 0xF4933D7E, 0x0D95748F, 0x728EB658,
      0x718BCD58, 0x82154AEE, 0x7B54A41D, 0xC25A59B5, 0x9C30D539, 0x2AF26013,
      0xC5D1B023, 0x286085F0, 0xCA417918, 0xB8DB38EF, 0x8E79DCB0, 0x603A180E,
      0x6C9E0E8B, 0xB01E8A3E, 0xD71577C1, 0xBD314B27, 0x78AF2FDA, 0x55605C60,
      0xE65525F3, 0xAA55AB94, 0x57489862, 0x63E81440, 0x55CA396A, 0x2AAB10B6,
      0xB4CC5C34, 0x1141E8CE, 0xA15486AF, 0x7C72E993, 0xB3EE1411, 0x636FBC2A,
      0x2BA9C55D, 0x741831F6, 0xCE5C3E16, 0x9B87931E, 0xAFD6BA33, 0x6C24CF5C,
      0x7A325381, 0x28958677, 0x3B8F4898, 0x6B4BB9AF, 0xC4BFE81B, 0x66282193,
      0x61D809CC, 0xFB21A991, 0x487CAC60, 0x5DEC8032, 0xEF845D5D, 0xE98575B1,
      0xDC262302, 0xEB651B88, 0x23893E81, 0xD396ACC5, 0x0F6D6FF3, 0x83F44239,
      0x2E0B4482, 0xA4842004, 0x69C8F04A, 0x9E1F9B5E, 0x21C66842, 0xF6E96C9A,
      0x670C9C61, 0xABD388F0, 0x6A51A0D2, 0xD8542F68, 0x960FA728, 0xAB5133A3,
      0x6EEF0B6C, 0x137A3BE4, 0xBA3BF050, 0x7EFB2A98, 0xA1F1651D, 0x39AF0176,
      0x66CA593E, 0x82430E88, 0x8CEE8619, 0x456F9FB4, 0x7D84A5C3, 0x3B8B5EBE,
      0xE06F75D8, 0x85C12073, 0x401A449F, 0x56C16AA6, 0x4ED3AA62, 0x363F7706,
      0x1BFEDF72, 0x429B023D, 0x37D0D724, 0xD00A1248, 0xDB0FEAD3, 0x49F1C09B,
      0x075372C9, 0x80991B7B, 0x25D479D8, 0xF6E8DEF7, 0xE3FE501A, 0xB6794C3B,
      0x976CE0BD, 0x04C006BA, 0xC1A94FB6, 0x409F60C4, 0x5E5C9EC2, 0x196A2463,
      0x68FB6FAF, 0x3E6C53B5, 0x1339B2EB, 0x3B52EC6F, 0x6DFC511F, 0x9B30952C,
      0xCC814544, 0xAF5EBD09, 0xBEE3D004, 0xDE334AFD, 0x660F2807, 0x192E4BB3,
      0xC0CBA857, 0x45C8740F, 0xD20B5F39, 0xB9D3FBDB, 0x5579C0BD, 0x1A60320A,
      0xD6A100C6, 0x402C7279, 0x679F25FE, 0xFB1FA3CC, 0x8EA5E9F8, 0xDB3222F8,
      0x3C7516DF, 0xFD616B15, 0x2F501EC8, 0xAD0552AB, 0x323DB5FA, 0xFD238760,
      0x53317B48, 0x3E00DF82, 0x9E5C57BB, 0xCA6F8CA0, 0x1A87562E, 0xDF1769DB,
      0xD542A8F6, 0x287EFFC3, 0xAC6732C6, 0x8C4F5573, 0x695B27B0, 0xBBCA58C8,
      0xE1FFA35D, 0xB8F011A0, 0x10FA3D98, 0xFD2183B8, 0x4AFCB56C, 0x2DD1D35B,
      0x9A53E479, 0xB6F84565, 0xD28E49BC, 0x4BFB9790, 0xE1DDF2DA, 0xA4CB7E33,
      0x62FB1341, 0xCEE4C6E8, 0xEF20CADA, 0x36774C01, 0xD07E9EFE, 0x2BF11FB4,
      0x95DBDA4D, 0xAE909198, 0xEAAD8E71, 0x6B93D5A0, 0xD08ED1D0, 0xAFC725E0,
      0x8E3C5B2F, 0x8E7594B7, 0x8FF6E2FB, 0xF2122B64, 0x8888B812, 0x900DF01C,
      0x4FAD5EA0, 0x688FC31C, 0xD1CFF191, 0xB3A8C1AD, 0x2F2F2218, 0xBE0E1777,
      0xEA752DFE, 0x8B021FA1, 0xE5A0CC0F, 0xB56F74E8, 0x18ACF3D6, 0xCE89E299,
      0xB4A84FE0, 0xFD13E0B7, 0x7CC43B81, 0xD2ADA8D9, 0x165FA266, 0x80957705,
      0x93CC7314, 0x211A1477, 0xE6AD2065, 0x77B5FA86, 0xC75442F5, 0xFB9D35CF,
      0xEBCDAF0C, 0x7B3E89A0, 0xD6411BD3, 0xAE1E7E49, 0x00250E2D, 0x2071B35E,
      0x226800BB, 0x57B8E0AF, 0x2464369B, 0xF009B91E, 0x5563911D, 0x59DFA6AA,
      0x78C14389, 0xD95A537F, 0x207D5BA2, 0x02E5B9C5, 0x83260376, 0x6295CFA9,
      0x11C81968, 0x4E734A41, 0xB3472DCA, 0x7B14A94A, 0x1B510052, 0x9A532915,
      0xD60F573F, 0xBC9BC6E4, 0x2B60A476, 0x81E67400, 0x08BA6FB5, 0x571BE91F,
      0xF296EC6B, 0x2A0DD915, 0xB6636521, 0xE7B9F9B6, 0xFF34052E, 0xC5855664,
      0x53B02D5D, 0xA99F8FA1, 0x08BA4799, 0x6E85076A]"

definition init_s1 :: "u32 list" where
  "init_s1 =
     [0x4B7A70E9, 0xB5B32944, 0xDB75092E, 0xC4192623, 0xAD6EA6B0, 0x49A7DF7D,
      0x9CEE60B8, 0x8FEDB266, 0xECAA8C71, 0x699A17FF, 0x5664526C, 0xC2B19EE1,
      0x193602A5, 0x75094C29, 0xA0591340, 0xE4183A3E, 0x3F54989A, 0x5B429D65,
      0x6B8FE4D6, 0x99F73FD6, 0xA1D29C07, 0xEFE830F5, 0x4D2D38E6, 0xF0255DC1,
      0x4CDD2086, 0x8470EB26, 0x6382E9C6, 0x021ECC5E, 0x09686B3F, 0x3EBAEFC9,
      0x3C971814, 0x6B6A70A1, 0x687F3584, 0x52A0E286, 0xB79C5305, 0xAA500737,
      0x3E07841C, 0x7FDEAE5C, 0x8E7D44EC, 0x5716F2B8, 0xB03ADA37, 0xF0500C0D,
      0xF01C1F04, 0x0200B3FF, 0xAE0CF51A, 0x3CB574B2, 0x25837A58, 0xDC0921BD,
      0xD19113F9, 0x7CA92FF6, 0x94324773, 0x22F54701, 0x3AE5E581, 0x37C2DADC,
      0xC8B57634, 0x9AF3DDA7, 0xA9446146, 0x0FD0030E, 0xECC8C73E, 0xA4751E41,
      0xE238CD99, 0x3BEA0E2F, 0x3280BBA1, 0x183EB331, 0x4E548B38, 0x4F6DB908,
      0x6F420D03, 0xF60A04BF, 0x2CB81290, 0x24977C79, 0x5679B072, 0xBCAF89AF,
      0xDE9A771F, 0xD9930810, 0xB38BAE12, 0xDCCF3F2E, 0x5512721F, 0x2E6B7124,
      0x501ADDE6, 0x9F84CD87, 0x7A584718, 0x7408DA17, 0xBC9F9ABC, 0xE94B7D8C,
      0xEC7AEC3A, 0xDB851DFA, 0x63094366, 0xC464C3D2, 0xEF1C1847, 0x3215D908,
      0xDD433B37, 0x24C2BA16, 0x12A14D43, 0x2A65C451, 0x50940002, 0x133AE4DD,
      0x71DFF89E, 0x10314E55, 0x81AC77D6, 0x5F11199B, 0x043556F1, 0xD7A3C76B,
      0x3C11183B, 0x5924A509, 0xF28FE6ED, 0x97F1FBFA, 0x9EBABF2C, 0x1E153C6E,
      0x86E34570, 0xEAE96FB1, 0x860E5E0A, 0x5A3E2AB3, 0x771FE71C, 0x4E3D06FA,
      0x2965DCB9, 0x99E71D0F, 0x803E89D6, 0x5266C825, 0x2E4CC978, 0x9C10B36A,
      0xC6150EBA, 0x94E2EA78, 0xA5FC3C53, 0x1E0A2DF4, 0xF2F74EA7, 0x361D2B3D,
      0x1939260F, 0x19C27960, 0x5223A708, 0xF71312B6, 0xEBADFE6E, 0xEAC31F66,
      0xE3BC4595, 0xA67BC883, 0xB17F37D1, 0x018CFF28, 0xC332DDEF, 0xBE6C5AA5,
      0x65582185, 0x68AB9802, 0xEECEA50F, 0xDB2F953B, 0x2AEF7DAD, 0x5B6E2F84,
      0x1521B628, 0x29076170, 0xECDD4775, 0x619F1510, 0x13CCA830, 0xEB61BD96,
      0x0334FE1E, 0xAA0363CF, 0xB5735C90, 0x4C70A239, 0xD59E9E0B, 0xCBAADE14,
      0xEECC86BC, 0x60622CA7, 0x9CAB5CAB, 0xB2F3846E, 0x648B1EAF, 0x19BDF0CA,
      0xA02369B9, 0x655ABB50, 0x40685A32, 0x3C2AB4B3, 0x319EE9D5, 0xC021B8F7,
      0x9B540B19, 0x875FA099, 0x95F7997E, 0x623D7DA8, 0xF837889A, 0x97E32D77,
      0x11ED935F, 0x16681281, 0x0E358829, 0xC7E61FD6, 0x96DEDFA1, 0x7858BA99,
      0x57F584A5, 0x1B227263, 0x9B83C3FF, 0x1AC24696, 0xCDB30AEB, 0x532E3054,
      0x8FD948E4, 0x6DBC3128, 0x58EBF2EF, 0x34C6FFEA, 0xFE28ED61, 0xEE7C3C73,
      0x5D4A14D9, 0xE864B7E3, 0x42105D14, 0x203E13E0, 0x45EEE2B6, 0xA3AAABEA,
      0xDB6C4F15, 0xFACB4FD0, 0xC742F442, 0xEF6ABBB5, 0x654F3B1D, 0x41CD2105,
      0xD81E799E, 0x86854DC7, 0xE44B476A, 0x3D816250, 0xCF62A1F2, 0x5B8D2646,
      0xFC8883A0, 0xC1C7B6A3, 0x7F1524C3, 0x69CB7492, 0x47848A0B, 0x5692B285,
      0x095BBF00, 0xAD19489D, 0x1462B174, 0x23820E00, 0x58428D2A, 0x0C55F5EA,
      0x1DADF43E, 0x233F7061, 0x3372F092, 0x8D937E41, 0xD65FECF1, 0x6C223BDB,
      0x7CDE3759, 0xCBEE7460, 0x4085F2A7, 0xCE77326E, 0xA6078084, 0x19F8509E,
      0xE8EFD855, 0x61D99735, 0xA969A7AA, 0xC50C06C2, 0x5A04ABFC, 0x800BCADC,
      0x9E447A2E, 0xC3453484, 0xFDD56705, 0x0E1E9EC9, 0xDB73DBD3, 0x105588CD,
      0x675FDA79, 0xE3674340, 0xC5C43465, 0x713E38D8, 0x3D28F89E, 0xF16DFF20,
      0x153E21E7, 0x8FB03D4A, 0xE6E39F2B, 0xDB83ADF7]"

definition init_s2 :: "u32 list" where
  "init_s2 =
     [0xE93D5A68, 0x948140F7, 0xF64C261C, 0x94692934, 0x411520F7, 0x7602D4F7,
      0xBCF46B2E, 0xD4A20068, 0xD4082471, 0x3320F46A, 0x43B7D4B7, 0x500061AF,
      0x1E39F62E, 0x97244546, 0x14214F74, 0xBF8B8840, 0x4D95FC1D, 0x96B591AF,
      0x70F4DDD3, 0x66A02F45, 0xBFBC09EC, 0x03BD9785, 0x7FAC6DD0, 0x31CB8504,
      0x96EB27B3, 0x55FD3941, 0xDA2547E6, 0xABCA0A9A, 0x28507825, 0x530429F4,
      0x0A2C86DA, 0xE9B66DFB, 0x68DC1462, 0xD7486900, 0x680EC0A4, 0x27A18DEE,
      0x4F3FFEA2, 0xE887AD8C, 0xB58CE006, 0x7AF4D6B6, 0xAACE1E7C, 0xD3375FEC,
      0xCE78A399, 0x406B2A42, 0x20FE9E35, 0xD9F385B9, 0xEE39D7AB, 0x3B124E8B,
      0x1DC9FAF7, 0x4B6D1856, 0x26A36631, 0xEAE397B2, 0x3A6EFA74, 0xDD5B4332,
      0x6841E7F7, 0xCA7820FB, 0xFB0AF54E, 0xD8FEB397, 0x454056AC, 0xBA489527,
      0x55533A3A, 0x20838D87, 0xFE6BA9B7, 0xD096954B, 0x55A867BC, 0xA1159A58,
      0xCCA92963, 0x99E1DB33, 0xA62A4A56, 0x3F3125F9, 0x5EF47E1C, 0x9029317C,
      0xFDF8E802, 0x04272F70, 0x80BB155C, 0x05282CE3, 0x95C11548, 0xE4C66D22,
      0x48C1133F, 0xC70F86DC, 0x07F9C9EE, 0x41041F0F, 0x404779A4, 0x5D886E17,
      0x325F51EB, 0xD59BC0D1, 0xF2BCC18F, 0x41113564, 0x257B7834, 0x602A9C60,
      0xDFF8E8A3, 0x1F636C1B, 0x0E12B4C2, 0x02E1329E, 0xAF664FD1, 0xCAD18115,
      0x6B2395E0, 0x333E92E1, 0x3B240B62, 0xEEBEB922, 0x85B2A20E, 0xE6BA0D99,
      0xDE720C8C, 0x2DA2F728, 0xD0127845, 0x95B794FD, 0x647D0862, 0xE7CCF5F0,
      0x5449A36F, 0x877D48FA, 0xC39DFD27, 0xF33E8D1E, 0x0A476341, 0x992EFF74,
      0x3A6F6EAB, 0xF4F8FD37, 0xA812DC60, 0xA1EBDDF8, 0x991BE14C, 0xDB6E6B0D,
      0xC67B5510, 0x6D672C37, 0x2765D43B, 0xDCD0E804, 0xF1290DC7, 0xCC00FFA3,
      0xB5390F92, 0x690FED0B, 0x667B9FFB, 0xCEDB7D9C, 0xA091CF0B, 0xD9155EA3,
      0xBB132F88, 0x515BAD24, 0x7B9479BF, 0x763BD6EB, 0x37392EB3, 0xCC115979,
      0x8026E297, 0xF42E312D, 0x6842ADA7, 0xC66A2B3B, 0x12754CCC, 0x782EF11C,
      0x6A124237, 0xB79251E7, 0x06A1BBE6, 0x4BFB6350, 0x1A6B1018, 0x11CAEDFA,
      0x3D25BDD8, 0xE2E1C3C9, 0x44421659, 0x0A121386, 0xD90CEC6E, 0xD5ABEA2A,
      0x64AF674E, 0xDA86A85F, 0xBEBFE988, 0x64E4C3FE, 0x9DBC8057, 0xF0F7C086,
      0x60787BF8, 0x6003604D, 0xD1FD8346, 0xF6381FB0, 0x7745AE04, 0xD736FCCC,
      0x83426B33, 0xF01EAB71, 0xB0804187, 0x3C005E5F, 0x77A057BE, 0xBDE8AE24,
      0x55464299, 0xBF582E61, 0x4E58F48F, 0xF2DDFDA2, 0xF474EF38, 0x8789BDC2,
      0x5366F9C3, 0xC8B38E74, 0xB475F255, 0x46FCD9B9, 0x7AEB2661, 0x8B1DDF84,
      0x846A0E79, 0x915F95E2, 0x466E598E, 0x20B45770, 0x8CD55591, 0xC902DE4C,
      0xB90BACE1, 0xBB8205D0, 0x11A86248, 0x7574A99E, 0xB77F19B6, 0xE0A9DC09,
      0x662D09A1, 0xC4324633, 0xE85A1F02, 0x09F0BE8C, 0x4A99A025, 0x1D6EFE10,
      0x1AB93D1D, 0x0BA5A4DF, 0xA186F20F, 0x2868F169, 0xDCB7DA83, 0x573906FE,
      0xA1E2CE9B, 0x4FCD7F52, 0x50115E01, 0xA70683FA, 0xA002B5C4, 0x0DE6D027,
      0x9AF88C27, 0x773F8641, 0xC3604C06, 0x61A806B5, 0xF0177A28, 0xC0F586E0,
      0x006058AA, 0x30DC7D62, 0x11E69ED7, 0x2338EA63, 0x53C2DD94, 0xC2C21634,
      0xBBCBEE56, 0x90BCB6DE, 0xEBFC7DA1, 0xCE591D76, 0x6F05E409, 0x4B7C0188,
      0x39720A3D, 0x7C927C24, 0x86E3725F, 0x724D9DB9, 0x1AC15BB4, 0xD39EB8FC,
      0xED545578, 0x08FCA5B5, 0xD83D7CD3, 0x4DAD0FC4, 0x1E50EF5E, 0xB161E6F8,
      0xA28514D9, 0x6C51133C, 0x6FD5C7E7, 0x56E14EC4, 0x362ABFCE, 0xDDC6C837,
      0xD79A3234, 0x92638212, 0x670EFA8E, 0x406000E0]"

definition init_s3 :: "u32 list" where
  "init_s3 =
     [0x3A39CE37, 0xD3FAF5CF, 0xABC27737, 0x5AC52D1B, 0x5CB0679E, 0x4FA33742,
      0xD3822740, 0x99BC9BBE, 0xD5118E9D, 0xBF0F7315, 0xD62D1C7E, 0xC700C47B,
      0xB78C1B6B, 0x21A19045, 0xB26EB1BE, 0x6A366EB4, 0x5748AB2F, 0xBC946E79,
      0xC6A376D2, 0x6549C2C8, 0x530FF8EE, 0x468DDE7D, 0xD5730A1D, 0x4CD04DC6,
      0x2939BBDB, 0xA9BA4650, 0xAC9526E8, 0xBE5EE304, 0xA1FAD5F0, 0x6A2D519A,
      0x63EF8CE2, 0x9A86EE22, 0xC089C2B8, 0x43242EF6, 0xA51E03AA, 0x9CF2D0A4,
      0x83C061BA, 0x9BE96A4D, 0x8FE51550, 0xBA645BD6, 0x2826A2F9, 0xA73A3AE1,
      0x4BA99586, 0xEF5562E9, 0xC72FEFD3, 0xF752F7DA, 0x3F046F69, 0x77FA0A59,
      0x80E4A915, 0x87B08601, 0x9B09E6AD, 0x3B3EE593, 0xE990FD5A, 0x9E34D797,
      0x2CF0B7D9, 0x022B8B51, 0x96D5AC3A, 0x017DA67D, 0xD1CF3ED6, 0x7C7D2D28,
      0x1F9F25CF, 0xADF2B89B, 0x5AD6B472, 0x5A88F54C, 0xE029AC71, 0xE019A5E6,
      0x47B0ACFD, 0xED93FA9B, 0xE8D3C48D, 0x283B57CC, 0xF8D56629, 0x79132E28,
      0x785F0191, 0xED756055, 0xF7960E44, 0xE3D35E8C, 0x15056DD4, 0x88F46DBA,
      0x03A16125, 0x0564F0BD, 0xC3EB9E15, 0x3C9057A2, 0x97271AEC, 0xA93A072A,
      0x1B3F6D9B, 0x1E6321F5, 0xF59C66FB, 0x26DCF319, 0x7533D928, 0xB155FDF5,
      0x03563482, 0x8ABA3CBB, 0x28517711, 0xC20AD9F8, 0xABCC5167, 0xCCAD925F,
      0x4DE81751, 0x3830DC8E, 0x379D5862, 0x9320F991, 0xEA7A90C2, 0xFB3E7BCE,
      0x5121CE64, 0x774FBE32, 0xA8B6E37E, 0xC3293D46, 0x48DE5369, 0x6413E680,
      0xA2AE0810, 0xDD6DB224, 0x69852DFD, 0x09072166, 0xB39A460A, 0x6445C0DD,
      0x586CDECF, 0x1C20C8AE, 0x5BBEF7DD, 0x1B588D40, 0xCCD2017F, 0x6BB4E3BB,
      0xDDA26A7E, 0x3A59FF45, 0x3E350A44, 0xBCB4CDD5, 0x72EACEA8, 0xFA6484BB,
      0x8D6612AE, 0xBF3C6F47, 0xD29BE463, 0x542F5D9E, 0xAEC2771B, 0xF64E6370,
      0x740E0D8D, 0xE75B1357, 0xF8721671, 0xAF537D5D, 0x4040CB08, 0x4EB4E2CC,
      0x34D2466A, 0x0115AF84, 0xE1B00428, 0x95983A1D, 0x06B89FB4, 0xCE6EA048,
      0x6F3F3B82, 0x3520AB82, 0x011A1D4B, 0x277227F8, 0x611560B1, 0xE7933FDC,
      0xBB3A792B, 0x344525BD, 0xA08839E1, 0x51CE794B, 0x2F32C9B7, 0xA01FBAC9,
      0xE01CC87E, 0xBCC7D1F6, 0xCF0111C3, 0xA1E8AAC7, 0x1A908749, 0xD44FBD9A,
      0xD0DADECB, 0xD50ADA38, 0x0339C32A, 0xC6913667, 0x8DF9317C, 0xE0B12B4F,
      0xF79E59B7, 0x43F5BB3A, 0xF2D519FF, 0x27D9459C, 0xBF97222C, 0x15E6FC2A,
      0x0F91FC71, 0x9B941525, 0xFAE59361, 0xCEB69CEB, 0xC2A86459, 0x12BAA8D1,
      0xB6C1075E, 0xE3056A0C, 0x10D25065, 0xCB03A442, 0xE0EC6E0E, 0x1698DB3B,
      0x4C98A0BE, 0x3278E964, 0x9F1F9532, 0xE0D392DF, 0xD3A0342B, 0x8971F21E,
      0x1B0A7441, 0x4BA3348C, 0xC5BE7120, 0xC37632D8, 0xDF359F8D, 0x9B992F2E,
      0xE60B6F47, 0x0FE3F11D, 0xE54CDA54, 0x1EDAD891, 0xCE6279CF, 0xCD3E7E6F,
      0x1618B166, 0xFD2C1D05, 0x848FD2C5, 0xF6FB2299, 0xF523F357, 0xA6327623,
      0x93A83531, 0x56CCCD02, 0xACF08162, 0x5A75EBB5, 0x6E163697, 0x88D273CC,
      0xDE966292, 0x81B949D0, 0x4C50901B, 0x71C65614, 0xE6C6C7BD, 0x327A140A,
      0x45E1D006, 0xC3F27B9A, 0xC9AA53FD, 0x62A80F00, 0xBB25BFE2, 0x35BDD2F6,
      0x71126905, 0xB2040222, 0xB6CBCF7C, 0xCD769C2B, 0x53113EC0, 0x1640E3D3,
      0x38ABBD60, 0x2547ADF0, 0xBA38209C, 0xF746CE76, 0x77AFA1C5, 0x20756060,
      0x85CBFE4E, 0x8AE88DD8, 0x7AAAF9B0, 0x4CF9AA7E, 0x1948C25C, 0x02FB8A8C,
      0x01C36AE4, 0xD6EBE1F9, 0x90D4F869, 0xA65CDEA0, 0x3F09252D, 0xC208E69F,
      0xB74E6132, 0xCE77E25B, 0x578FDFE3, 0x3AC372E6]"

definition initCipher :: Cipher where
  "initCipher = \<lparr>cipher_p = init_p, cipher_s0 = init_s0, cipher_s1 = init_s1,
                  cipher_s2 = init_s2, cipher_s3 = init_s3\<rparr>"

text \<open>
  The round function
  \<open>((c.s0[byte(x>>24)] + c.s1[byte(x>>16)]) ^ c.s2[byte(x>>8)]) + c.s3[byte(x)]\<close>
  and the 16 rounds of \<open>encryptBlock\<close>, two to a step.
\<close>

definition sbox :: "u32 list \<Rightarrow> u32 \<Rightarrow> u32" where
  "sbox s x = s ! unat (ucast x :: byte)"

definition feistel :: "Cipher \<Rightarrow> u32 \<Rightarrow> u32" where
  "feistel c x =
     ((sbox (cipher_s0 c) (drop_bit 24 x) + sbox (cipher_s1 c) (drop_bit 16 x))
        XOR sbox (cipher_s2 c) (drop_bit 8 x)) + sbox (cipher_s3 c) x"

fun rounds :: "Cipher \<Rightarrow> nat \<Rightarrow> nat \<Rightarrow> u32 \<times> u32 \<Rightarrow> u32 \<times> u32" where
  "rounds c i 0 (xl, xr) = (xl, xr)"
| "rounds c i (Suc n) (xl, xr) =
     (let xr = xr XOR (feistel c xl XOR cipher_p c ! i);
          xl = xl XOR (feistel c xr XOR cipher_p c ! (i + 1))
      in rounds c (i + 2) n (xl, xr))"

definition encryptBlock :: "u32 \<Rightarrow> u32 \<Rightarrow> Cipher \<Rightarrow> u32 \<times> u32" where
  "encryptBlock l r c =
     (let xl = l XOR cipher_p c ! 0;
          (xl, xr) = rounds c 1 8 (xl, r);
          xr = xr XOR cipher_p c ! 17
      in (xr, xl))"

text \<open>
  \<open>getNextWord(b, &pos)\<close>: the next four bytes of \<open>b\<close> as a big-endian word, starting
  at \<open>pos\<close> and wrapping around to the start of \<open>b\<close> at its end.
\<close>

fun next_bytes :: "bytes \<Rightarrow> nat \<Rightarrow> nat \<Rightarrow> u32 \<Rightarrow> u32 \<times> nat" where
  "next_bytes b 0 j w = (w, j)"
| "next_bytes b (Suc k) j w =
     (let w = push_bit 8 w OR ucast (b ! j);
          j = j + 1;
          j = (if j \<ge> length b then 0 else j)
      in next_bytes b k j w)"

definition getNextWord :: "bytes \<Rightarrow> nat \<Rightarrow> u32 \<times> nat" where
  "getNextWord b pos = next_bytes b 4 pos 0"

text \<open>The first \<open>n\<close> words read so from \<open>b\<close>, starting at \<open>pos\<close>.\<close>

fun next_words :: "bytes \<Rightarrow> nat \<Rightarrow> nat \<Rightarrow> u32 list" where
  "next_words b pos 0 = []"
| "next_words b pos (Suc n) = (let (d, pos) = getNextWord b pos in d # next_words b pos n)"

text \<open>
  Both key expansions begin with \<open>for i := 0; i < 18; i++ { c.p[i] ^= (next word of key) }\<close>
  and then overwrite the P-array and the S-boxes, two words at a time, with successive
  encryptions of \<open>(l, r)\<close> under the cipher as it stands; \<open>expandKeyWithSalt\<close> first xors
  the next two words of the salt into \<open>(l, r)\<close>.
\<close>

definition xor_key :: "bytes \<Rightarrow> Cipher \<Rightarrow> Cipher" where
  "xor_key key c = c\<lparr>cipher_p := map2 (XOR) (cipher_p c) (next_words key 0 18)\<rparr>"

definition next_block :: "bytes option \<Rightarrow> u32 \<times> u32 \<times> nat \<Rightarrow> Cipher \<Rightarrow> u32 \<times> u32 \<times> nat" where
  "next_block salt st c =
     (case st of (l, r, j) \<Rightarrow>
        (case salt of
           None \<Rightarrow> (let (l, r) = encryptBlock l r c in (l, r, j))
         | Some s \<Rightarrow>
             (let (a, j) = getNextWord s j; l = l XOR a;
                  (a, j) = getNextWord s j; r = r XOR a;
                  (l, r) = encryptBlock l r c
              in (l, r, j))))"

fun refill ::
  "(nat \<Rightarrow> u32 \<Rightarrow> u32 \<Rightarrow> Cipher \<Rightarrow> Cipher) \<Rightarrow> bytes option \<Rightarrow> nat \<Rightarrow> nat
     \<Rightarrow> (u32 \<times> u32 \<times> nat) \<times> Cipher \<Rightarrow> (u32 \<times> u32 \<times> nat) \<times> Cipher" where
  "refill put salt i 0 (st, c) = (st, c)"
| "refill put salt i (Suc n) (st, c) =
     (case next_block salt st c of
        (l, r, j) \<Rightarrow> refill put salt (i + 2) n ((l, r, j), put i l r c))"

definition put_p :: "nat \<Rightarrow> u32 \<Rightarrow> u32 \<Rightarrow> Cipher \<Rightarrow> Cipher" where
  "put_p i l r c = c\<lparr>cipher_p := (cipher_p c)[i := l, i + 1 := r]\<rparr>"
definition put_s0 :: "nat \<Rightarrow> u32 \<Rightarrow> u32 \<Rightarrow> Cipher \<Rightarrow> Cipher" where
  "put_s0 i l r c = c\<lparr>cipher_s0 := (cipher_s0 c)[i := l, i + 1 := r]\<rparr>"
definition put_s1 :: "nat \<Rightarrow> u32 \<Rightarrow> u32 \<Rightarrow> Cipher \<Rightarrow> Cipher" where
  "put_s1 i l r c = c\<lparr>cipher_s1 := (cipher_s1 c)[i := l, i + 1 := r]\<rparr>"
definition put_s2 :: "nat \<Rightarrow> u32 \<Rightarrow> u32 \<Rightarrow> Cipher \<Rightarrow> Cipher" where
  "put_s2 i l r c = c\<lparr>cipher_s2 := (cipher_s2 c)[i := l, i + 1 := r]\<rparr>"
definition put_s3 :: "nat \<Rightarrow> u32 \<Rightarrow> u32 \<Rightarrow> Cipher \<Rightarrow> Cipher" where
  "put_s3 i l r c = c\<lparr>cipher_s3 := (cipher_s3 c)[i := l, i + 1 := r]\<rparr>"

definition refill_all :: "bytes option \<Rightarrow> Cipher \<Rightarrow> Cipher" where
  "refill_all salt c =
     snd (refill put_s3 salt 0 128
           (refill put_s2 salt 0 128
             (refill put_s1 salt 0 128
               (refill put_s0 salt 0 128
                 (refill put_p salt 0 9 ((0, 0, 0), c))))))"

definition ExpandKey :: "bytes \<Rightarrow> Cipher \<Rightarrow> Cipher" where
  "ExpandKey key c = refill_all None (xor_key key c)"

definition expandKeyWithSalt :: "bytes \<Rightarrow> bytes \<Rightarrow> Cipher \<Rightarrow> Cipher" where
  "expandKeyWithSalt key salt c = refill_all (Some salt) (xor_key key c)"

definition NewCipher :: "bytes \<Rightarrow> go_error + Cipher" where
  "NewCipher key =
     (if length key < 1 \<or> length key > 56 then Inl (KeySizeError (int (length key)))
      else Inr (ExpandKey key initCipher))"

definition NewSaltedCipher :: "bytes \<Rightarrow> bytes \<Rightarrow> go_error + Cipher" where
  "NewSaltedCipher key salt =
     (if length salt = 0 then NewCipher key
      else if length key < 1 then Inl (KeySizeError (int (length key)))
      else Inr (expandKeyWithSalt key salt initCipher))"

text \<open>\<open>c.Encrypt(dst, src)\<close> on one block of eight bytes.\<close>

definition be32 :: "bytes \<Rightarrow> u32" where
  "be32 b = push_bit 24 (ucast (b ! 0)) OR push_bit 16 (ucast (b ! 1))
              OR push_bit 8 (ucast (b ! 2)) OR ucast (b ! 3)"

definition be_bytes :: "u32 \<Rightarrow> bytes" where
  "be_bytes x = [ucast (drop_bit 24 x), ucast (drop_bit 16 x), ucast (drop_bit 8 x), ucast x]"

definition Encrypt :: "Cipher \<Rightarrow> bytes \<Rightarrow> bytes" where
  "Encrypt c src =
     (let (l, r) = encryptBlock (be32 src) (be32 (drop 4 src)) c in be_bytes l @ be_bytes r)"

section \<open>golang.org/x/crypto/bcrypt\<close>

text \<open>
  \<open>bcrypt\<close> writes salts and hashes in base 64 with its own alphabet: \<open>bcEncoding\<close> is
  \<open>encoding/base64\<close> with that alphabet and the padding character \<open>=\<close>.  The encoder
  packs three bytes into four characters; a final group of one or two bytes gives two
  or three characters and padding.
\<close>

definition alphabet :: string where
  "alphabet = ''./ABCDEFGHIJKLMNOPQRSTUVWXYZabcdefghijklmnopqrstuvwxyz0123456789''"

definition padChar :: byte where
  "padChar = 0x3D"

definition enc64 :: "nat \<Rightarrow> byte" where
  "enc64 n = of_char (alphabet ! (n mod 64))"

fun bcEncoding_Encode :: "bytes \<Rightarrow> bytes" where
  "bcEncoding_Encode (a # b # c # rest) =
     (let val = unat a * 65536 + unat b * 256 + unat c
      in [enc64 (val div 262144), enc64 (val div 4096), enc64 (val div 64), enc64 val])
     @ bcEncoding_Encode rest"
| "bcEncoding_Encode [a, b] =
     (let val = unat a * 65536 + unat b * 256
      in [enc64 (val div 262144), enc64 (val div 4096), enc64 (val div 64), padChar])"
| "bcEncoding_Encode [a] =
     (let val = unat a * 65536
      in [enc64 (val div 262144), enc64 (val div 4096), padChar, padChar])"
| "bcEncoding_Encode [] = []"

text \<open>\<open>base64Encode\<close> encodes and cuts the padding off the end.\<close>

definition base64Encode :: "bytes \<Rightarrow> bytes" where
  "base64Encode src = rev (dropWhile (\<lambda>c. c = padChar) (rev (bcEncoding_Encode src)))"

text \<open>
  The decoder skips \<open>\r\<close> and \<open>\n\<close> wherever they stand, reads four characters of the
  alphabet at a time, and accepts padding only as the last one or two characters of the
  last group; anything else is a \<open>CorruptInputError\<close> (its offset is not modelled).
\<close>

definition decodeMap :: "byte \<Rightarrow> nat option" where
  "decodeMap b = map_of (zip (bytes_of_string alphabet) [0 ..< 64]) b"

fun decode_quanta :: "bytes \<Rightarrow> go_error + bytes" where
  "decode_quanta [] = Inr []"
| "decode_quanta (a # b # c # d # rest) =
     (case (decodeMap a, decodeMap b) of
        (Some x, Some y) \<Rightarrow>
          (if c = padChar then
             (if d = padChar \<and> rest = [] then Inr [of_nat ((x * 262144 + y * 4096) div 65536)]
              else Inl CorruptInputError)
           else
             (case decodeMap c of
                None \<Rightarrow> Inl CorruptInputError
              | Some z \<Rightarrow>
                  (if d = padChar then
                     (if rest = [] then
                        Inr [of_nat ((x * 262144 + y * 4096 + z * 64) div 65536),
                             of_nat ((x * 262144 + y * 4096 + z * 64) div 256)]
                      else Inl CorruptInputError)
                   else
                     (case decodeMap d of
                        None \<Rightarrow> Inl CorruptInputError
                      | Some t \<Rightarrow>
                          (case decode_quanta rest of
                             Inl err \<Rightarrow> Inl err
                           | Inr bs \<Rightarrow>
                               Inr (of_nat ((x * 262144 + y * 4096 + z * 64 + t) div 65536) #
                                    of_nat ((x * 262144 + y * 4096 + z * 64 + t) div 256) #
                                    of_nat (x * 262144 + y * 4096 + z * 64 + t) # bs))))))
      | _ \<Rightarrow> Inl CorruptInputError)"
| "decode_quanta _ = Inl CorruptInputError"

definition bcEncoding_Decode :: "bytes \<Rightarrow> go_error + bytes" where
  "bcEncoding_Decode src = decode_quanta (filter (\<lambda>c. c \<noteq> 0x0A \<and> c \<noteq> 0x0D) src)"

definition base64Decode :: "bytes \<Rightarrow> go_error + bytes" where
  "base64Decode src =
     (let numOfEquals = 4 - (length src mod 4)
      in bcEncoding_Decode (src @ replicate numOfEquals padChar))"

definition MinCost :: int where "MinCost = 4"
definition MaxCost :: int where "MaxCost = 31"
definition DefaultCost :: int where "DefaultCost = 10"

definition majorVersion :: byte where "majorVersion = 0x32"
definition minorVersion :: byte where "minorVersion = 0x61"
definition maxSaltSize :: nat where "maxSaltSize = 16"
definition maxCryptedHashSize :: nat where "maxCryptedHashSize = 23"
definition encodedSaltSize :: nat where "encodedSaltSize = 22"
definition encodedHashSize :: nat where "encodedHashSize = 31"
definition minHashSize :: nat where "minHashSize = 59"

definition magicCipherData :: bytes where
  "magicCipherData = bytes_of_string ''OrpheanBeholderScryDoubt''"

record hashed =
  h_hash :: bytes
  h_salt :: bytes
  h_cost :: int
  h_major :: byte
  h_minor :: byte

definition checkCost :: "int \<Rightarrow> go_error option" where
  "checkCost cost = (if cost < MinCost \<or> cost > MaxCost then Some (InvalidCostError cost) else None)"

text \<open>
  \<open>expensiveBlowfishSetup\<close>: decode the salt, append the terminating zero byte to the
  key, set the cipher up with key and salt, and expand it \<open>1 << cost\<close> times with the
  key and then the salt.  (Expanding with an empty salt would index an empty slice; the
  decoder returns no empty salt for the 22 characters \<open>bcrypt\<close> passes, and the model
  reports that case as an error of its own.)
\<close>

definition expensiveBlowfishSetup :: "bytes \<Rightarrow> nat \<Rightarrow> bytes \<Rightarrow> go_error + Cipher" where
  "expensiveBlowfishSetup key cost salt =
     (case base64Decode salt of
        Inl err \<Rightarrow> Inl err
      | Inr csalt \<Rightarrow>
          (let ckey = key @ [0] in
           case NewSaltedCipher ckey csalt of
             Inl err \<Rightarrow> Inl err
           | Inr c \<Rightarrow>
               (if csalt = [] then Inl (OtherError ''index out of range'')
                else Inr (((\<lambda>c. ExpandKey csalt (ExpandKey ckey c)) ^^ (2 ^ cost)) c))))"

text \<open>
  \<open>bcrypt\<close>: encrypt each of the three blocks of the magic text 64 times and encode the
  first 23 of the 24 bytes.
\<close>

definition encrypt_blocks :: "Cipher \<Rightarrow> bytes \<Rightarrow> bytes" where
  "encrypt_blocks c cipherData =
     ((Encrypt c) ^^ 64) (take 8 cipherData)
     @ ((Encrypt c) ^^ 64) (take 8 (drop 8 cipherData))
     @ ((Encrypt c) ^^ 64) (take 8 (drop 16 cipherData))"

definition bcrypt :: "bytes \<Rightarrow> int \<Rightarrow> bytes \<Rightarrow> go_error + bytes" where
  "bcrypt pw cost salt =
     (case expensiveBlowfishSetup pw (nat cost) salt of
        Inl err \<Rightarrow> Inl err
      | Inr c \<Rightarrow> Inr (base64Encode (take maxCryptedHashSize (encrypt_blocks c magicCipherData))))"

text \<open>\<open>fmt.Sprintf("%02d", cost)\<close>.\<close>

fun digits :: "nat \<Rightarrow> nat \<Rightarrow> bytes" where
  "digits 0 n = []"
| "digits (Suc fuel) n =
     (if n < 10 then [of_nat (48 + n)] else digits fuel (n div 10) @ [of_nat (48 + n mod 10)])"

definition Sprintf_02d :: "int \<Rightarrow> bytes" where
  "Sprintf_02d n =
     (if n < 0 then 0x2D # digits (Suc (nat (- n))) (nat (- n))
      else if n < 10 then 0x30 # digits 1 (nat n)
      else digits (Suc (nat n)) (nat n))"

text \<open>\<open>copy(arr[n:], src)\<close>: as many bytes of \<open>src\<close> as fit.\<close>

definition copy_at :: "bytes \<Rightarrow> nat \<Rightarrow> bytes \<Rightarrow> bytes" where
  "copy_at arr n src =
     take n arr @ take (length arr - n) src @ drop (n + length src) arr"

definition hashed_Hash :: "hashed \<Rightarrow> bytes" where
  "hashed_Hash p =
     (let arr = replicate 60 0;
          arr = arr[0 := 0x24];
          arr = arr[1 := h_major p];
          n = 2;
          (arr, n) = (if h_minor p \<noteq> 0 then (arr[2 := h_minor p], 3) else (arr, n));
          arr = arr[n := 0x24];
          n = n + 1;
          arr = copy_at arr n (Sprintf_02d (h_cost p));
          n = n + 2;
          arr = arr[n := 0x24];
          n = n + 1;
          arr = copy_at arr n (h_salt p);
          n = n + encodedSaltSize;
          arr = copy_at arr n (h_hash p);
          n = n + encodedHashSize
      in take n arr)"

text \<open>
  \<open>newFromPassword\<close> draws the 16 bytes of salt from the secure random source
  (\<open>io.ReadFull(rand.Reader, unencodedSalt)\<close>).
\<close>

definition newFromPassword :: "bytes \<Rightarrow> int \<Rightarrow> world \<Rightarrow> (go_error + hashed) \<times> world" where
  "newFromPassword pw cost w =
     (let cost = (if cost < MinCost then DefaultCost else cost) in
      case checkCost cost of
        Some err \<Rightarrow> (Inl err, w)
      | None \<Rightarrow>
          (case rand_Read maxSaltSize w of
             (Inl err, w1) \<Rightarrow> (Inl err, w1)
           | (Inr unencodedSalt, w1) \<Rightarrow>
               (let salt = base64Encode unencodedSalt in
                case bcrypt pw cost salt of
                  Inl err \<Rightarrow> (Inl err, w1)
                | Inr hsh \<Rightarrow>
                    (Inr \<lparr>h_hash = hsh, h_salt = salt, h_cost = cost,
                          h_major = majorVersion, h_minor = minorVersion\<rparr>, w1))))"

definition GenerateFromPassword :: "bytes \<Rightarrow> int \<Rightarrow> world \<Rightarrow> (go_error + bytes) \<times> world" where
  "GenerateFromPassword pw cost w =
     (if length pw > 72 then (Inl ErrPasswordTooLong, w)
      else case newFromPassword pw cost w of
             (Inl err, w1) \<Rightarrow> (Inl err, w1)
           | (Inr p, w1) \<Rightarrow> (Inr (hashed_Hash p), w1))"

text \<open>
  \<open>strconv.Atoi\<close> on the two bytes of the cost: two digits, or a sign and a digit.
\<close>

definition is_digit :: "byte \<Rightarrow> bool" where
  "is_digit b = (0x30 \<le> b \<and> b \<le> 0x39)"

definition Atoi2 :: "bytes \<Rightarrow> go_error + int" where
  "Atoi2 s =
     (let a = s ! 0; b = s ! 1 in
      if (a = 0x2D \<or> a = 0x2B) \<and> is_digit b
      then Inr ((if a = 0x2D then - 1 else 1) * (uint b - 48))
      else if is_digit a \<and> is_digit b then Inr ((uint a - 48) * 10 + (uint b - 48))
      else Inl (StrconvSyntaxError (string_of_bytes (take 2 s))))"

text \<open>
  \<open>newFromHash\<close> with \<open>decodeVersion\<close> and \<open>decodeCost\<close> in line: it checks the length, the
  first byte, the major version and the cost, and takes the 22 bytes after the cost as
  the salt and the rest as the hash.
\<close>

definition newFromHash :: "bytes \<Rightarrow> go_error + hashed" where
  "newFromHash hashedSecret =
     (if length hashedSecret < minHashSize then Inl ErrHashTooShort
      else if hashedSecret ! 0 \<noteq> 0x24 then Inl (InvalidHashPrefixError (hashedSecret ! 0))
      else if hashedSecret ! 1 > majorVersion then Inl (HashVersionTooNewError (hashedSecret ! 1))
      else
        (let major = hashedSecret ! 1;
             (minor, n) = (if hashedSecret ! 2 \<noteq> 0x24 then (hashedSecret ! 2, 4) else (0, 3));
             hashedSecret = drop n hashedSecret
         in case Atoi2 (take 2 hashedSecret) of
              Inl err \<Rightarrow> Inl err
            | Inr cost \<Rightarrow>
                (case checkCost cost of
                   Some err \<Rightarrow> Inl err
                 | None \<Rightarrow>
                     (let hashedSecret = drop 3 hashedSecret;
                          salt = take encodedSaltSize hashedSecret;
                          hashedSecret = drop encodedSaltSize hashedSecret
                      in Inr \<lparr>h_hash = hashedSecret, h_salt = salt, h_cost = cost,
                              h_major = major, h_minor = minor\<rparr>))))"

definition ConstantTimeCompare :: "bytes \<Rightarrow> bytes \<Rightarrow> int" where
  "ConstantTimeCompare x y = (if length x \<noteq> length y then 0 else if x = y then 1 else 0)"

definition CompareHashAndPassword :: "bytes \<Rightarrow> bytes \<Rightarrow> go_error option" where
  "CompareHashAndPassword hashedPassword pw =
     (case newFromHash hashedPassword of
        Inl err \<Rightarrow> Some err
      | Inr p \<Rightarrow>
          (case bcrypt pw (h_cost p) (h_salt p) of
             Inl err \<Rightarrow> Some err
           | Inr otherHash \<Rightarrow>
               (let otherP = \<lparr>h_hash = otherHash, h_salt = h_salt p, h_cost = h_cost p,
                              h_major = h_major p, h_minor = h_minor p\<rparr>
                in if ConstantTimeCompare (hashed_Hash p) (hashed_Hash otherP) = 1 then None
                   else Some ErrMismatchedHashAndPassword)))"

section \<open>users.go: the password\<close>

text \<open>
  \<open>Set\<close> and \<open>Matches\<close> have a pointer receiver: the model takes the \<open>password\<close> struct
  and \<open>Set\<close> returns it as the call leaves it.  \<open>Set\<close> returns the error (or \<open>nil\<close>),
  \<open>Matches\<close> the pair of its results.
\<close>

definition Set_password :: "password \<Rightarrow> string \<Rightarrow> world \<Rightarrow> (go_error option \<times> password) \<times> world" where
  "Set_password p plaintextpassword w =
     (case GenerateFromPassword (bytes_of_string plaintextpassword) 12 w of
        (Inl err, w1) \<Rightarrow> ((Some err, p), w1)
      | (Inr hsh, w1) \<Rightarrow>
          ((None, p\<lparr>plaintext := Some plaintextpassword, hash := Some hsh\<rparr>), w1))"

text \<open>The bytes of the field \<open>p.hash\<close>: a \<open>nil\<close> slice has none.\<close>

definition hash_bytes :: "password \<Rightarrow> bytes" where
  "hash_bytes p = (case hash p of None \<Rightarrow> [] | Some h \<Rightarrow> h)"

definition Matches :: "password \<Rightarrow> string \<Rightarrow> bool \<times> go_error option" where
  "Matches p plaintextpassword =
     (case CompareHashAndPassword (hash_bytes p) (bytes_of_string plaintextpassword) of
        Some err \<Rightarrow>
          (if errors_Is err ErrMismatchedHashAndPassword then (False, None)
           else (False, Some err))
      | None \<Rightarrow> (True, None))"

section \<open>users.go: what is stored and serialized of a user\<close>

text \<open>
  What the statements of \<open>UserModel.Insert\<close> and \<open>UserModel.Update\<close> are given of a user:
  the \<open>args\<close> of the two methods.
\<close>

datatype sql_arg = ArgString string | ArgBytes "bytes option" | ArgBool bool | ArgInt int

definition UserModel_Insert_args :: "User \<Rightarrow> sql_arg list" where
  "UserModel_Insert_args user =
     [ArgString (Username user), ArgString (Email user), ArgBytes (hash (Password user)),
      ArgBool (Activated user)]"

definition UserModel_Update_args :: "User \<Rightarrow> sql_arg list" where
  "UserModel_Update_args user =
     [ArgString (Username user), ArgString (Email user), ArgBytes (hash (Password user)),
      ArgBool (Activated user), ArgString (User.UUID user), ArgInt (Version user)]"

text \<open>The fields of \<open>User\<close> with their tags, as declared.\<close>

definition User_fields :: "User \<Rightarrow> (string \<times> field_value) list" where
  "User_fields u =
     [(''uuid'', VString (User.UUID u)),
      (''username'', VString (Username u)),
      (''created_at'', VTime (CreatedAt u)),
      (''email'', VString (Email u)),
      (''-'', VPassword (Password u)),
      (''activated'', VBool (Activated u)),
      (''-'', VInt (Version u))]"

definition json_Marshal_User :: "(field_value \<Rightarrow> go_error + string) \<Rightarrow> User \<Rightarrow> go_error + string" where
  "json_Marshal_User enc u =
     (case encode_members enc (User_fields u) of
        Inl err \<Rightarrow> Inl err
      | Inr ms \<Rightarrow> Inr (''{'' @ join_members ms @ ''}''))"

text \<open>The zero value of \<open>password\<close>, and the first seven bytes of a hash of cost 12.\<close>

definition password_zero :: password where
  "password_zero = \<lparr>plaintext = None, hash = None\<rparr>"

definition prefix_2a_12 :: bytes where
  "prefix_2a_12 = [0x24, 0x32, 0x61, 0x24, 0x31, 0x32, 0x24]"

section \<open>Examples to run the definitions on\<close>

text \<open>
  A stand-in for the digest in the worked examples (the theorems hold for every \<open>H\<close>),
  and a world with a working random source and an empty, working database.
\<close>

definition H0 :: "bytes \<Rightarrow> bytes" where
  "H0 b = take 32 (b @ replicate 32 0)"

definition w0 :: world where
  "w0 = \<lparr>now = 1700000000000000000, rand_fault = None, entropy = (\<lambda>i. of_nat i), rand_pos = 0,
         db_fault = None, tokens_table = [], users_table = [], requests = []\<rparr>"

definition one_hour :: duration where
  "one_hour = 3600000000000"

definition tok0 :: Token where
  "tok0 = \<lparr>Plaintext = ''AAAQEAYEAUDAOCAJBIFQYDIOB4'',
           Hash = H0 (bytes_of_string ''AAAQEAYEAUDAOCAJBIFQYDIOB4''),
           UUID = ''6b1f0e9a-0001'', Expiry = 1700003600000000000, Scope = ''activation''\<rparr>"

definition alice :: user_row where
  "alice = \<lparr>col_uuid = ''6b1f0e9a-0001'', col_created_at = 1690000000000000000,
            col_username = ''alice'', col_email = ''alice@example.com'',
            col_password_hash = bytes_of_string ''$2a$12$'', col_activated = False,
            col_version = 1\<rparr>"

text \<open>The database after \<open>alice\<close> registered and \<open>tok0\<close> was issued to her.\<close>

definition w1 :: world where
  "w1 = w0\<lparr>users_table := [alice],
           tokens_table := [\<lparr>row_hash = Hash tok0, row_uuid = ''6b1f0e9a-0001'',
                             row_expiry = 1700003600000000000, row_scope = ''activation''\<rparr>]\<rparr>"

section \<open>Lemmas\<close>

lemma length_base32_EncodeToString:
  "length (base32_EncodeToString bs) = length bs div 5 * 8 + (length bs mod 5 * 8 + 4) div 5"
proof (induction bs rule: base32_EncodeToString.induct)
  case (1 s0 s1 s2 s3 s4 rest)
  have "(5 + length rest) div 5 = Suc (length rest div 5)" by simp
  with 1 show ?case by simp
qed simp_all

lemma Valid_Check: "Valid (Check v ok key message) \<longleftrightarrow> Valid v \<and> ok"
  by (auto simp: Valid_def Check_def AddError_def)

lemma Valid_validator_New: "Valid validator_New"
  by (simp add: Valid_def validator_New_def)

lemma set_select_user_for_token:
  "set (select_user_for_token h scope t w) =
     {u \<in> set (users_table w).
        \<exists>r \<in> set (tokens_table w). col_uuid u = row_uuid r \<and> token_matches h scope t r}"
  by (auto simp: select_user_for_token_def)

lemma select_user_for_token_requests [simp]:
  "select_user_for_token h scope t (w\<lparr>requests := q\<rparr>) = select_user_for_token h scope t w"
  by (simp add: select_user_for_token_def)

section \<open>Token generation\<close>

lemma generateToken_w0:
  "generateToken H0 ''6b1f0e9a-0001'' one_hour ''activation'' w0 =
     (Inr tok0, w0\<lparr>rand_pos := 16,
                   requests := [RandRead 16, Sha256Sum (bytes_of_string (Plaintext tok0))]\<rparr>)"
  by (simp add: generateToken_def rand_Read_def sha256_Sum256_def time_Add_def Let_def w0_def
        tok0_def one_hour_def upt_rec enc32_def encodeStd_def)

text \<open>
  C1.  Whatever the owner, the time to live and the scope: a token that \<open>generateToken\<close>
  returns has as plaintext the unpadded base-32 encoding of the 16 bytes read from the
  secure random source, 26 characters long; its hash is the SHA-256 digest of that
  plaintext; its expiry is the time of generation plus the time to live.  The call fails
  exactly when the random source does, with the source's error.
\<close>

theorem generateToken_correct:
  "(\<forall>token w'. generateToken H uuid ttl scope w = (Inr token, w') \<longrightarrow>
       Plaintext token =
         base32_EncodeToString (map (entropy w) [rand_pos w ..< rand_pos w + 16])
     \<and> length (Plaintext token) = 26
     \<and> Hash token = H (bytes_of_string (Plaintext token))
     \<and> Expiry token = now w + sint ttl
     \<and> Token.UUID token = uuid \<and> Scope token = scope)
   \<and> (\<forall>err. (\<exists>w'. generateToken H uuid ttl scope w = (Inl err, w')) \<longleftrightarrow> rand_fault w = Some err)"
  by (auto simp: generateToken_def rand_Read_def sha256_Sum256_def time_Add_def Let_def
        length_base32_EncodeToString split: option.splits)

theorem generateToken_correct_witness:
  "fst (generateToken H0 ''6b1f0e9a-0001'' one_hour ''activation'' w0) = Inr tok0
   \<and> Plaintext tok0 = ''AAAQEAYEAUDAOCAJBIFQYDIOB4''
   \<and> length (Plaintext tok0) = 26
   \<and> Hash tok0 = H0 (bytes_of_string (Plaintext tok0))
   \<and> Expiry tok0 = now w0 + 3600000000000
   \<and> fst (generateToken H0 ''6b1f0e9a-0001'' one_hour ''activation''
            (w0\<lparr>rand_fault := Some (OtherError ''entropy source unavailable'')\<rparr>))
       = Inl (OtherError ''entropy source unavailable'')"
proof -
  let ?wf = "w0\<lparr>rand_fault := Some (OtherError ''entropy source unavailable'')\<rparr>"
  note ok = generateToken_correct [of H0 "''6b1f0e9a-0001''" one_hour "''activation''" w0]
  note ko = generateToken_correct [of H0 "''6b1f0e9a-0001''" one_hour "''activation''" ?wf]
  from ok generateToken_w0 have
    "length (Plaintext tok0) = 26 \<and> Hash tok0 = H0 (bytes_of_string (Plaintext tok0))
     \<and> Expiry tok0 = now w0 + sint one_hour"
    by blast
  moreover have "sint one_hour = 3600000000000" by (simp add: one_hour_def)
  moreover have "rand_fault ?wf = Some (OtherError ''entropy source unavailable'')" by simp
  with ko obtain w' where
    "generateToken H0 ''6b1f0e9a-0001'' one_hour ''activation'' ?wf
       = (Inl (OtherError ''entropy source unavailable''), w')"
    by blast
  ultimately show ?thesis
    using generateToken_w0 by (simp add: tok0_def)
qed

section \<open>Token verification\<close>

lemma GetForToken_Inr:
  assumes "fst (GetForToken H scope tokenPlaintext w) = Inr user"
  shows "db_fault w = None
     \<and> select_user_for_token (H (bytes_of_string tokenPlaintext)) scope (now w) w \<noteq> []
     \<and> user = Scan_user (hd (select_user_for_token (H (bytes_of_string tokenPlaintext)) scope (now w) w))"
  using assms
  by (auto simp: GetForToken_def sha256_Sum256_def QueryRow_user_for_token_def Let_def
        errors_Is_def split: option.splits list.splits if_splits)

lemma GetForToken_no_fault:
  assumes "db_fault w = None"
  shows "fst (GetForToken H scope tokenPlaintext w) =
     (case select_user_for_token (H (bytes_of_string tokenPlaintext)) scope (now w) w of
        [] \<Rightarrow> Inl ErrRecordNotFound
      | r # _ \<Rightarrow> Inr (Scan_user r))"
  using assms
  by (simp add: GetForToken_def sha256_Sum256_def QueryRow_user_for_token_def Let_def
        errors_Is_def split: list.splits)

lemma GetForToken_world:
  "snd (GetForToken H scope tokenPlaintext w) =
     w\<lparr>requests := requests w @
          [Sha256Sum (bytes_of_string tokenPlaintext),
           QueryUserForToken (H (bytes_of_string tokenPlaintext)) scope (now w)]\<rparr>"
  by (simp add: GetForToken_def sha256_Sum256_def QueryRow_user_for_token_def Let_def
        split: option.splits list.splits)

text \<open>
  C2.  Whatever the scope and the plaintext, \<open>GetForToken\<close> hashes the plaintext with
  SHA-256 and asks the database once, for the users joined to a token row with that
  hash, that scope and an expiry strictly later than now; it changes no table.  A user
  it returns is the owner of such a row.  When the statement runs (the driver and the
  context report no failure of their own), the call returns a user if such a row with
  its owner exists, and otherwise \<open>ErrRecordNotFound\<close>, the same error whether the
  secret is wrong, the scope is wrong, the token has expired or it was deleted.  When
  the statement itself fails, that failure is returned as it is.
\<close>

theorem GetForToken_correct:
  "(\<forall>user. fst (GetForToken H scope tokenPlaintext w) = Inr user \<longrightarrow>
      (\<exists>u \<in> set (users_table w). \<exists>r \<in> set (tokens_table w).
          user = Scan_user u \<and> col_uuid u = row_uuid r
        \<and> row_hash r = H (bytes_of_string tokenPlaintext) \<and> row_scope r = scope
        \<and> now w < row_expiry r))
   \<and> (db_fault w = None \<longrightarrow>
        (if \<exists>u \<in> set (users_table w). \<exists>r \<in> set (tokens_table w).
               col_uuid u = row_uuid r
             \<and> row_hash r = H (bytes_of_string tokenPlaintext) \<and> row_scope r = scope
             \<and> now w < row_expiry r
         then \<exists>user. fst (GetForToken H scope tokenPlaintext w) = Inr user
         else fst (GetForToken H scope tokenPlaintext w) = Inl ErrRecordNotFound))
   \<and> (\<forall>err. db_fault w = Some err \<longrightarrow>
        fst (GetForToken H scope tokenPlaintext w) =
          Inl (if err = SqlErrNoRows then ErrRecordNotFound else err))
   \<and> snd (GetForToken H scope tokenPlaintext w) =
        w\<lparr>requests := requests w @
             [Sha256Sum (bytes_of_string tokenPlaintext),
              QueryUserForToken (H (bytes_of_string tokenPlaintext)) scope (now w)]\<rparr>"
proof -
  let ?h = "H (bytes_of_string tokenPlaintext)"
  let ?rows = "select_user_for_token ?h scope (now w) w"
  let ?live = "\<exists>u \<in> set (users_table w). \<exists>r \<in> set (tokens_table w).
               col_uuid u = row_uuid r \<and> row_hash r = ?h \<and> row_scope r = scope
             \<and> now w < row_expiry r"
  have rows: "?rows \<noteq> [] \<longleftrightarrow> ?live"
  proof -
    have "?rows \<noteq> [] \<longleftrightarrow> set ?rows \<noteq> {}" by simp
    also have "\<dots> \<longleftrightarrow> ?live"
      unfolding set_select_user_for_token by (auto simp: token_matches_def)
    finally show ?thesis .
  qed
  have 1: "\<exists>u \<in> set (users_table w). \<exists>r \<in> set (tokens_table w).
          user = Scan_user u \<and> col_uuid u = row_uuid r
        \<and> row_hash r = ?h \<and> row_scope r = scope \<and> now w < row_expiry r"
    if "fst (GetForToken H scope tokenPlaintext w) = Inr user" for user
  proof -
    from GetForToken_Inr [OF that]
    have ne: "?rows \<noteq> []" and u: "user = Scan_user (hd ?rows)" by auto
    from ne have "hd ?rows \<in> set ?rows" by simp
    then show ?thesis
      unfolding set_select_user_for_token using u by (auto simp: token_matches_def)
  qed
  have 2: "if ?live then \<exists>user. fst (GetForToken H scope tokenPlaintext w) = Inr user
           else fst (GetForToken H scope tokenPlaintext w) = Inl ErrRecordNotFound"
    if "db_fault w = None"
  proof (cases ?rows)
    case Nil
    with rows have "\<not> ?live" by simp
    with Nil GetForToken_no_fault [OF that, of H scope tokenPlaintext] show ?thesis by simp
  next
    case (Cons r rs)
    with rows have "?live" by simp
    with Cons GetForToken_no_fault [OF that, of H scope tokenPlaintext] show ?thesis by simp
  qed
  have 3: "fst (GetForToken H scope tokenPlaintext w) =
             Inl (if err = SqlErrNoRows then ErrRecordNotFound else err)"
    if "db_fault w = Some err" for err
    using that
    by (simp add: GetForToken_def sha256_Sum256_def QueryRow_user_for_token_def Let_def
          errors_Is_def)
  from 1 2 3 GetForToken_world [of H scope tokenPlaintext w] show ?thesis by blast
qed

text \<open>
  The theorem at work on the database \<open>w1\<close>, where \<open>alice\<close> holds the activation token
  \<open>tok0\<close>: the right secret and scope resolve her before the expiry; the same secret
  and scope fail with \<open>ErrRecordNotFound\<close> at the instant of expiry, and so do the
  wrong scope, a wrong secret, and the right secret once her activation tokens are
  deleted.
\<close>

theorem GetForToken_correct_witness:
  "fst (GetForToken H0 ''activation'' (Plaintext tok0) w1) = Inr (Scan_user alice)
   \<and> fst (GetForToken H0 ''activation'' (Plaintext tok0) (w1\<lparr>now := Expiry tok0\<rparr>))
       = Inl ErrRecordNotFound
   \<and> fst (GetForToken H0 ''authentication'' (Plaintext tok0) w1) = Inl ErrRecordNotFound
   \<and> fst (GetForToken H0 ''activation'' ''AAAQEAYEAUDAOCAJBIFQYDIOB5'' w1) = Inl ErrRecordNotFound
   \<and> fst (GetForToken H0 ''activation'' (Plaintext tok0)
            (snd (DeleteAllForUser ''activation'' ''6b1f0e9a-0001'' w1))) = Inl ErrRecordNotFound"
proof -
  let ?p = "Plaintext tok0"
  have h: "H0 (bytes_of_string ?p) = Hash tok0" by (simp add: tok0_def)
  have h': "H0 (bytes_of_string ''AAAQEAYEAUDAOCAJBIFQYDIOB5'') \<noteq> Hash tok0"
    by (simp add: tok0_def H0_def bytes_of_string_def)
  have "\<exists>user. fst (GetForToken H0 ''activation'' ?p w1) = Inr user"
    using GetForToken_correct [of H0 "''activation''" ?p w1] h
    by (simp add: w1_def w0_def alice_def tok0_def)
  then obtain user where u: "fst (GetForToken H0 ''activation'' ?p w1) = Inr user" ..
  with GetForToken_correct [of H0 "''activation''" ?p w1]
  have "\<exists>u \<in> set (users_table w1). user = Scan_user u" by blast
  then have "user = Scan_user alice" by (simp add: w1_def w0_def)
  with u have a: "fst (GetForToken H0 ''activation'' ?p w1) = Inr (Scan_user alice)" by simp
  have b: "fst (GetForToken H0 ''activation'' ?p (w1\<lparr>now := Expiry tok0\<rparr>)) = Inl ErrRecordNotFound"
    using GetForToken_correct [of H0 "''activation''" ?p "w1\<lparr>now := Expiry tok0\<rparr>"]
    by (simp add: w1_def w0_def tok0_def)
  have c: "fst (GetForToken H0 ''authentication'' ?p w1) = Inl ErrRecordNotFound"
    using GetForToken_correct [of H0 "''authentication''" ?p w1]
    by (simp add: w1_def w0_def)
  have d: "fst (GetForToken H0 ''activation'' ''AAAQEAYEAUDAOCAJBIFQYDIOB5'' w1) = Inl ErrRecordNotFound"
    using GetForToken_correct [of H0 "''activation''" "''AAAQEAYEAUDAOCAJBIFQYDIOB5''" w1] h'
    by (simp add: w1_def w0_def)
  have e: "fst (GetForToken H0 ''activation'' ?p
            (snd (DeleteAllForUser ''activation'' ''6b1f0e9a-0001'' w1))) = Inl ErrRecordNotFound"
    using GetForToken_correct [of H0 "''activation''" ?p
            "snd (DeleteAllForUser ''activation'' ''6b1f0e9a-0001'' w1)"]
    by (simp add: DeleteAllForUser_def Let_def w1_def w0_def)
  from a b c d e show ?thesis by simp
qed

section \<open>Issuing a token\<close>

text \<open>
  C5, as stated, fails: when the \<open>INSERT\<close> fails, \<open>New\<close> returns the generated token
  together with the error (\<open>return token, err\<close>); the token is not dropped.
\<close>

theorem New_keeps_token_counterexample:
  "fst (New H0 ''6b1f0e9a-0001'' one_hour ''activation''
          (w0\<lparr>db_fault := Some (OtherError ''pq: connection refused'')\<rparr>))
     = (Some tok0, Some (OtherError ''pq: connection refused''))"
  by (simp add: New_def Insert_def generateToken_def rand_Read_def sha256_Sum256_def time_Add_def
        Let_def w0_def tok0_def one_hour_def upt_rec enc32_def encodeStd_def)

text \<open>
  C5, amended.  \<open>New\<close> generates and then persists.  If the generation fails, it returns
  no token and the error, and has asked nothing of the database.  Otherwise it has sent
  exactly one \<open>INSERT\<close>, of the generated token's hash, owner, expiry and scope, and
  returns the generated token together with that statement's outcome: if the statement
  failed, its error (and the table is as it was), if not, no error (and the table has
  the one new row).
\<close>

theorem New_generate_then_persist:
  "(\<forall>err. rand_fault w = Some err \<longrightarrow>
       fst (New H uuid ttl scope w) = (None, Some err)
     \<and> requests (snd (New H uuid ttl scope w)) = requests w @ [RandRead 16]
     \<and> tokens_table (snd (New H uuid ttl scope w)) = tokens_table w)
   \<and> (rand_fault w = None \<longrightarrow>
       (\<exists>token. fst (generateToken H uuid ttl scope w) = Inr token
          \<and> fst (New H uuid ttl scope w) = (Some token, db_fault w)
          \<and> requests (snd (New H uuid ttl scope w)) =
              requests w @ [RandRead 16, Sha256Sum (bytes_of_string (Plaintext token)),
                 ExecInsertToken \<lparr>row_hash = Hash token, row_uuid = Token.UUID token,
                                  row_expiry = Expiry token, row_scope = Scope token\<rparr>]
          \<and> tokens_table (snd (New H uuid ttl scope w)) =
              (case db_fault w of
                 Some err \<Rightarrow> tokens_table w
               | None \<Rightarrow> tokens_table w @
                   [\<lparr>row_hash = Hash token, row_uuid = Token.UUID token,
                     row_expiry = Expiry token, row_scope = Scope token\<rparr>])))"
  by (auto simp: New_def generateToken_def rand_Read_def sha256_Sum256_def Insert_def Let_def
        split: option.splits)

theorem New_generate_then_persist_witness:
  "fst (New H0 ''6b1f0e9a-0001'' one_hour ''activation''
          (w0\<lparr>rand_fault := Some (OtherError ''entropy source unavailable'')\<rparr>))
     = (None, Some (OtherError ''entropy source unavailable''))
   \<and> requests (snd (New H0 ''6b1f0e9a-0001'' one_hour ''activation''
          (w0\<lparr>rand_fault := Some (OtherError ''entropy source unavailable'')\<rparr>))) = [RandRead 16]
   \<and> fst (New H0 ''6b1f0e9a-0001'' one_hour ''activation'' w0) = (Some tok0, None)
   \<and> tokens_table (snd (New H0 ''6b1f0e9a-0001'' one_hour ''activation'' w0)) = tokens_table w1
   \<and> tokens_table (snd (New H0 ''6b1f0e9a-0001'' one_hour ''activation''
          (w0\<lparr>db_fault := Some (OtherError ''pq: connection refused'')\<rparr>))) = []"
proof -
  let ?wr = "w0\<lparr>rand_fault := Some (OtherError ''entropy source unavailable'')\<rparr>"
  let ?wd = "w0\<lparr>db_fault := Some (OtherError ''pq: connection refused'')\<rparr>"
  have r: "rand_fault ?wr = Some (OtherError ''entropy source unavailable'')"
    and q: "requests ?wr = []" and t: "tokens_table ?wr = []"
    by (simp_all add: w0_def)
  have a: "fst (New H0 ''6b1f0e9a-0001'' one_hour ''activation'' ?wr)
             = (None, Some (OtherError ''entropy source unavailable''))
     \<and> requests (snd (New H0 ''6b1f0e9a-0001'' one_hour ''activation'' ?wr)) = [RandRead 16]"
    using New_generate_then_persist [of ?wr H0 "''6b1f0e9a-0001''" one_hour "''activation''"] r q
    by simp
  have g: "fst (generateToken H0 ''6b1f0e9a-0001'' one_hour ''activation'' w0) = Inr tok0"
    using generateToken_w0 by simp
  have "rand_fault w0 = None" "db_fault w0 = None" "tokens_table w0 = []"
    by (simp_all add: w0_def)
  with g New_generate_then_persist [of w0 H0 "''6b1f0e9a-0001''" one_hour "''activation''"]
  have b: "fst (New H0 ''6b1f0e9a-0001'' one_hour ''activation'' w0) = (Some tok0, None)
     \<and> tokens_table (snd (New H0 ''6b1f0e9a-0001'' one_hour ''activation'' w0)) =
         [\<lparr>row_hash = Hash tok0, row_uuid = Token.UUID tok0,
           row_expiry = Expiry tok0, row_scope = Scope tok0\<rparr>]"
    by auto
  have "rand_fault ?wd = None" "db_fault ?wd = Some (OtherError ''pq: connection refused'')"
    "tokens_table ?wd = []"
    by (simp_all add: w0_def)
  with New_generate_then_persist [of ?wd H0 "''6b1f0e9a-0001''" one_hour "''activation''"]
  have c: "tokens_table (snd (New H0 ''6b1f0e9a-0001'' one_hour ''activation'' ?wd)) = []"
    by auto
  from a b c show ?thesis by (simp add: w1_def tok0_def)
qed

section \<open>The format check of a presented token\<close>

text \<open>
  C7.  A fresh validator is still valid after \<open>ValidateTokenPlaintext\<close> exactly when the
  plaintext is not empty and 26 bytes long (and any validator, when it was valid before
  and the plaintext is so).  A handler that checks first rejects every
  other plaintext with the validator's errors and leaves the world as it was: nothing
  was hashed and the database was not asked.
\<close>

theorem ValidateTokenPlaintext_accepts:
  "(Valid (ValidateTokenPlaintext validator_New tokenPlaintext)
      \<longleftrightarrow> tokenPlaintext \<noteq> [] \<and> length tokenPlaintext = 26)
   \<and> (Valid (ValidateTokenPlaintext v tokenPlaintext)
      \<longleftrightarrow> Valid v \<and> tokenPlaintext \<noteq> [] \<and> length tokenPlaintext = 26)
   \<and> (\<not> (tokenPlaintext \<noteq> [] \<and> length tokenPlaintext = 26) \<longrightarrow>
        verify_presented_token H scope tokenPlaintext w =
          (Inl (ValidateTokenPlaintext validator_New tokenPlaintext), w)
      \<and> map_of (Errors (ValidateTokenPlaintext validator_New tokenPlaintext)) ''token'' \<noteq> None)
   \<and> (tokenPlaintext \<noteq> [] \<and> length tokenPlaintext = 26 \<longrightarrow>
        verify_presented_token H scope tokenPlaintext w =
          (Inr (fst (GetForToken H scope tokenPlaintext w)),
           snd (GetForToken H scope tokenPlaintext w)))"
proof -
  have v: "Valid (ValidateTokenPlaintext validator_New tokenPlaintext)
      \<longleftrightarrow> tokenPlaintext \<noteq> [] \<and> length tokenPlaintext = 26"
    by (simp add: ValidateTokenPlaintext_def Valid_Check Let_def Valid_validator_New)
  have e: "map_of (Errors (ValidateTokenPlaintext validator_New tokenPlaintext)) ''token'' \<noteq> None"
    if "\<not> (tokenPlaintext \<noteq> [] \<and> length tokenPlaintext = 26)"
    using that
    by (auto simp: ValidateTokenPlaintext_def Check_def AddError_def validator_New_def Let_def)
  have v': "Valid (ValidateTokenPlaintext v tokenPlaintext)
      \<longleftrightarrow> Valid v \<and> tokenPlaintext \<noteq> [] \<and> length tokenPlaintext = 26"
    by (simp add: ValidateTokenPlaintext_def Valid_Check Let_def)
  from v v' e show ?thesis
    by (auto simp: verify_presented_token_def Let_def split: prod.splits)
qed

theorem ValidateTokenPlaintext_accepts_witness:
  "Valid (ValidateTokenPlaintext validator_New (Plaintext tok0))
   \<and> verify_presented_token H0 ''activation'' (Plaintext tok0) w1 =
       (Inr (Inr (Scan_user alice)), snd (GetForToken H0 ''activation'' (Plaintext tok0) w1))
   \<and> verify_presented_token H0 ''activation'' ''AAAQEAYEAUDAOCAJBIFQYDIOB'' w1 =
       (Inl \<lparr>Errors = [(''token'', ''must be 26 bytes long'')]\<rparr>, w1)
   \<and> verify_presented_token H0 ''activation'' '''' w1 =
       (Inl \<lparr>Errors = [(''token'', ''must be provided'')]\<rparr>, w1)"
proof -
  have l: "Plaintext tok0 \<noteq> [] \<and> length (Plaintext tok0) = 26" by (simp add: tok0_def)
  have a: "Valid (ValidateTokenPlaintext validator_New (Plaintext tok0))"
    using ValidateTokenPlaintext_accepts [where tokenPlaintext = "Plaintext tok0" and v = validator_New
        and H = H0 and scope = "''activation''" and w = w1] l by blast
  have "verify_presented_token H0 ''activation'' (Plaintext tok0) w1 =
          (Inr (fst (GetForToken H0 ''activation'' (Plaintext tok0) w1)),
           snd (GetForToken H0 ''activation'' (Plaintext tok0) w1))"
    using ValidateTokenPlaintext_accepts [where tokenPlaintext = "Plaintext tok0" and v = validator_New
        and H = H0 and scope = "''activation''" and w = w1] l by blast
  moreover have "fst (GetForToken H0 ''activation'' (Plaintext tok0) w1) = Inr (Scan_user alice)"
    by (simp add: GetForToken_def sha256_Sum256_def QueryRow_user_for_token_def Let_def
          select_user_for_token_def token_matches_def errors_Is_def w1_def w0_def alice_def
          tok0_def)
  ultimately have b: "verify_presented_token H0 ''activation'' (Plaintext tok0) w1 =
       (Inr (Inr (Scan_user alice)), snd (GetForToken H0 ''activation'' (Plaintext tok0) w1))"
    by simp
  have "verify_presented_token H0 ''activation'' ''AAAQEAYEAUDAOCAJBIFQYDIOB'' w1 =
          (Inl (ValidateTokenPlaintext validator_New ''AAAQEAYEAUDAOCAJBIFQYDIOB''), w1)"
    using ValidateTokenPlaintext_accepts [where tokenPlaintext = "''AAAQEAYEAUDAOCAJBIFQYDIOB''" and v = validator_New
        and H = H0 and scope = "''activation''" and w = w1]
    by simp
  then have c: "verify_presented_token H0 ''activation'' ''AAAQEAYEAUDAOCAJBIFQYDIOB'' w1 =
       (Inl \<lparr>Errors = [(''token'', ''must be 26 bytes long'')]\<rparr>, w1)"
    by (simp add: ValidateTokenPlaintext_def Check_def AddError_def validator_New_def Let_def)
  have "verify_presented_token H0 ''activation'' '''' w1 =
          (Inl (ValidateTokenPlaintext validator_New ''''), w1)"
    using ValidateTokenPlaintext_accepts [where tokenPlaintext = "''''" and v = validator_New and H = H0
        and scope = "''activation''" and w = w1]
    by simp
  then have d: "verify_presented_token H0 ''activation'' '''' w1 =
       (Inl \<lparr>Errors = [(''token'', ''must be provided'')]\<rparr>, w1)"
    by (simp add: ValidateTokenPlaintext_def Check_def AddError_def validator_New_def Let_def)
  from a b c d show ?thesis by simp
qed

section \<open>Validating a user\<close>

lemma ValidateUser_cases:
  "ValidateUser EmailRX v user =
     (if hash (Password user) = None then Inl (Panic ''missing password hash for user'')
      else Inr (let v = ValidateUsername v (Username user);
                    v = ValidateEmail EmailRX v (Email user)
                in case plaintext (Password user) of
                     Some p \<Rightarrow> ValidatePasswordPlaintext v p
                   | None \<Rightarrow> v))"
  by (simp add: ValidateUser_def Let_def)

text \<open>
  C8.  \<open>ValidateUser\<close> panics exactly when the user's password hash is \<open>nil\<close>, whatever the
  other fields hold and whatever the validator has recorded; with a hash that is not
  \<open>nil\<close> it returns, and what is wrong with the user is in the validator it returns.
\<close>

theorem ValidateUser_panics_iff_no_hash:
  "((\<exists>p. ValidateUser EmailRX v user = Inl p) \<longleftrightarrow> hash (Password user) = None)
   \<and> ((\<exists>v'. ValidateUser EmailRX v user = Inr v') \<longleftrightarrow> hash (Password user) \<noteq> None)
   \<and> (ValidateUser EmailRX v user = Inl (Panic ''missing password hash for user'')
        \<longleftrightarrow> hash (Password user) = None)"
  by (simp add: ValidateUser_cases)

text \<open>
  Two users: one whose fields are all acceptable but whose hash is \<open>nil\<close> (a panic), one
  with a hash and a two-letter name (no panic: an error under \<open>username\<close>).
\<close>

theorem ValidateUser_panics_iff_no_hash_witness:
  "ValidateUser (\<lambda>s. CHR ''@'' \<in> set s) validator_New
      (User_zero\<lparr>Username := ''alice'', Email := ''alice@example.com''\<rparr>)
     = Inl (Panic ''missing password hash for user'')
   \<and> ValidateUser (\<lambda>s. CHR ''@'' \<in> set s) validator_New
      (User_zero\<lparr>Username := ''al'', Email := ''alice@example.com'',
                  Password := \<lparr>plaintext = None, hash = Some []\<rparr>\<rparr>)
     = Inr \<lparr>Errors = [(''username'', ''must be at least 3 bytes long'')]\<rparr>"
proof -
  let ?rx = "\<lambda>s. CHR ''@'' \<in> set s"
  let ?u1 = "User_zero\<lparr>Username := ''alice'', Email := ''alice@example.com''\<rparr>"
  let ?u2 = "User_zero\<lparr>Username := ''al'', Email := ''alice@example.com'',
                  Password := \<lparr>plaintext = None, hash = Some []\<rparr>\<rparr>"
  have "hash (Password ?u1) = None" by (simp add: User_zero_def)
  with ValidateUser_panics_iff_no_hash [of ?rx validator_New ?u1]
  have a: "ValidateUser ?rx validator_New ?u1 = Inl (Panic ''missing password hash for user'')"
    by blast
  have "hash (Password ?u2) \<noteq> None" by simp
  with ValidateUser_panics_iff_no_hash [of ?rx validator_New ?u2]
  obtain v' where v': "ValidateUser ?rx validator_New ?u2 = Inr v'" by blast
  then have "v' = \<lparr>Errors = [(''username'', ''must be at least 3 bytes long'')]\<rparr>"
    by (simp add: ValidateUser_def ValidateUsername_def ValidateEmail_def Check_def AddError_def
          validator_New_def User_zero_def Let_def)
  with a v' show ?thesis by simp
qed

section \<open>The anonymous user\<close>

text \<open>
  C9.  \<open>IsAnonymous\<close> holds of a pointer exactly when it is the pointer \<open>AnonymousUser\<close>.
  A user allocated after the package's initialisation is at another address, so it is
  not anonymous, whatever it holds: not even when it is the zero user, field for field
  what \<open>AnonymousUser\<close> points to.
\<close>

theorem IsAnonymous_pointer_identity:
  "(IsAnonymous u \<longleftrightarrow> u = AnonymousUser)
   \<and> (AnonymousUser < length st \<longrightarrow>
        \<not> IsAnonymous (fst (new_User st usr))
      \<and> snd (new_User st usr) ! fst (new_User st usr) = usr
      \<and> snd (new_User st usr) ! AnonymousUser = st ! AnonymousUser)"
  by (simp add: IsAnonymous_def new_User_def AnonymousUser_def nth_append)

theorem IsAnonymous_pointer_identity_witness:
  "AnonymousUser < length store_init
   \<and> IsAnonymous AnonymousUser
   \<and> \<not> IsAnonymous (fst (new_User store_init User_zero))
   \<and> snd (new_User store_init User_zero) ! fst (new_User store_init User_zero)
       = snd (new_User store_init User_zero) ! AnonymousUser"
proof -
  have a: "AnonymousUser < length store_init" by (simp add: AnonymousUser_def store_init_def)
  have z: "store_init ! AnonymousUser = User_zero" by (simp add: AnonymousUser_def store_init_def)
  from a z IsAnonymous_pointer_identity [of AnonymousUser store_init User_zero]
  show ?thesis by simp
qed

section \<open>The JSON form of a token\<close>

lemma json_Marshal_Token_eq:
  "json_Marshal_Token enc t =
     (case enc (VString (Plaintext t)) of
        Inl err \<Rightarrow> Inl err
      | Inr p \<Rightarrow>
          (case enc (VTime (Expiry t)) of
             Inl err \<Rightarrow> Inl err
           | Inr e \<Rightarrow> Inr (''{'' @ [CHR 0x22] @ ''token'' @ [CHR 0x22] @ '':'' @ p @ '','' @
                            [CHR 0x22] @ ''expiry'' @ [CHR 0x22] @ '':'' @ e @ ''}'')))"
  by (simp add: json_Marshal_Token_def Token_fields_def split: sum.splits)

text \<open>
  C10.  The JSON form of a token is a function of its plaintext and its expiry alone:
  putting any other hash, owner and scope in the token leaves the output (or the
  encoder's failure) as it is.
\<close>

theorem json_Marshal_Token_hides_hash_owner_scope:
  "json_Marshal_Token enc (t\<lparr>Hash := h, Token.UUID := u, Scope := s\<rparr>) = json_Marshal_Token enc t"
  by (simp add: json_Marshal_Token_eq cong: sum.case_cong)

section \<open>Lemmas: the base-64 of bcrypt\<close>

lemma enc64_table:
  "list_all (\<lambda>k. decodeMap (enc64 k) = Some k \<and> enc64 k \<noteq> padChar \<and> enc64 k \<noteq> 0x0A \<and> enc64 k \<noteq> 0x0D)
     [0 ..< 64]"
  by code_simp

lemma enc64_facts:
  "decodeMap (enc64 n) = Some (n mod 64)" "enc64 n \<noteq> padChar" "enc64 n \<noteq> 0x0A" "enc64 n \<noteq> 0x0D"
proof -
  have e: "enc64 n = enc64 (n mod 64)" by (simp add: enc64_def)
  have "n mod 64 \<in> set [0 ..< 64]" by simp
  with enc64_table have
    "decodeMap (enc64 (n mod 64)) = Some (n mod 64) \<and> enc64 (n mod 64) \<noteq> padChar
       \<and> enc64 (n mod 64) \<noteq> 0x0A \<and> enc64 (n mod 64) \<noteq> 0x0D"
    unfolding list_all_iff by blast
  with e show "decodeMap (enc64 n) = Some (n mod 64)" "enc64 n \<noteq> padChar"
    "enc64 n \<noteq> 0x0A" "enc64 n \<noteq> 0x0D"
    by simp_all
qed

lemma padChar_not_newline: "padChar \<noteq> 0x0A" "padChar \<noteq> 0x0D"
  by (simp_all add: padChar_def)

lemma decode_quanta_Nil: "decode_quanta xs = Inr [] \<Longrightarrow> xs = []"
  by (induction xs rule: decode_quanta.induct)
     (auto split: option.splits if_splits sum.splits)

lemma base64Decode_nonempty: "base64Decode src \<noteq> Inr []"
proof
  assume a: "base64Decode src = Inr []"
  let ?k = "4 - length src mod 4"
  have "?k > 0" by simp
  then obtain m where m: "?k = Suc m" by (cases ?k) auto
  from a have "filter (\<lambda>c. c \<noteq> 0x0A \<and> c \<noteq> 0x0D) (src @ replicate ?k padChar) = []"
    unfolding base64Decode_def bcEncoding_Decode_def Let_def by (rule decode_quanta_Nil)
  with m show False by (simp add: padChar_not_newline)
qed

lemma recombine:
  fixes v :: nat
  assumes "v < 16777216"
  shows "(v div 262144 mod 64) * 262144 + (v div 4096 mod 64) * 4096 + (v div 64 mod 64) * 64 + v mod 64 = v"
proof -
  define a where "a = v div 64"
  define b where "b = a div 64"
  define c where "c = b div 64"
  have b: "v div 4096 = b" unfolding b_def a_def by (simp add: div_mult2_eq)
  have c: "v div 262144 = c" unfolding c_def b_def a_def by (simp add: div_mult2_eq)
  from assms have "c < 64" unfolding c [symmetric] by simp
  then have cm: "c mod 64 = c" by simp
  have 1: "v = a * 64 + v mod 64" unfolding a_def by simp
  have 2: "a = b * 64 + a mod 64" unfolding b_def by simp
  have 3: "b = c * 64 + b mod 64" unfolding c_def by simp
  have "c * 262144 + (b mod 64) * 4096 + (a mod 64) * 64 + v mod 64
          = (c * 64 + b mod 64) * 4096 + (a mod 64) * 64 + v mod 64" by simp
  also have "\<dots> = b * 4096 + (a mod 64) * 64 + v mod 64" using 3 by simp
  also have "\<dots> = (b * 64 + a mod 64) * 64 + v mod 64" by simp
  also have "\<dots> = a * 64 + v mod 64" using 2 by simp
  also have "\<dots> = v" using 1 by simp
  finally show ?thesis unfolding b c cm a_def [symmetric] .
qed

lemma byte_unat_lt: "unat (a :: byte) < 256"
  using unsigned_less [of a] by simp

lemma quantum3:
  fixes a b c :: byte
  defines "val \<equiv> unat a * 65536 + unat b * 256 + unat c"
  shows "val < 16777216" "(of_nat (val div 65536) :: byte) = a" "(of_nat (val div 256) :: byte) = b"
    "(of_nat val :: byte) = c"
proof -
  have z: "(256 :: byte) = 0" "(65536 :: byte) = 0" by simp_all
  have la: "unat a < 256" and lb: "unat b < 256" and lc: "unat c < 256"
    by (rule byte_unat_lt)+
  then show "val < 16777216" unfolding val_def by simp
  have "val div 65536 = unat a" unfolding val_def using lb lc by simp
  then show "(of_nat (val div 65536) :: byte) = a" by simp
  have "val div 256 = unat a * 256 + unat b" unfolding val_def using lc by simp
  then have "(of_nat (val div 256) :: byte) = of_nat (unat a) * 256 + of_nat (unat b)" by simp
  also have "\<dots> = b" by (simp add: z)
  finally show "(of_nat (val div 256) :: byte) = b" .
  have "(of_nat val :: byte) = of_nat (unat a) * 65536 + of_nat (unat b) * 256 + of_nat (unat c)"
    unfolding val_def by simp
  also have "\<dots> = c" by (simp add: z)
  finally show "(of_nat val :: byte) = c" .
qed

lemma decode_quantum4:
  assumes "v < 16777216"
  shows "decode_quanta (enc64 (v div 262144) # enc64 (v div 4096) # enc64 (v div 64) # enc64 v # rest) =
     (case decode_quanta rest of
        Inl err \<Rightarrow> Inl err
      | Inr bs \<Rightarrow> Inr (of_nat (v div 65536) # of_nat (v div 256) # of_nat v # bs))"
  using recombine [OF assms]
  by (simp only: decode_quanta.simps enc64_facts option.case prod.case sum.case simp_thms
        if_False if_True)

lemma decode_quantum3:
  assumes "v < 16777216" "v mod 64 = 0"
  shows "decode_quanta [enc64 (v div 262144), enc64 (v div 4096), enc64 (v div 64), padChar] =
     Inr [of_nat (v div 65536), of_nat (v div 256)]"
proof -
  from recombine [OF assms(1)] assms(2)
  have "v div 262144 mod 64 * 262144 + v div 4096 mod 64 * 4096 + v div 64 mod 64 * 64 = v"
    by (simp only: add_0_right)
  then show ?thesis
    by (simp only: decode_quanta.simps enc64_facts option.case prod.case sum.case simp_thms
          if_False if_True)
qed

lemma decode_quantum2:
  assumes "v < 16777216" "v mod 64 = 0" "v div 64 mod 64 = 0"
  shows "decode_quanta [enc64 (v div 262144), enc64 (v div 4096), padChar, padChar] =
     Inr [of_nat (v div 65536)]"
proof -
  from recombine [OF assms(1)] assms(2,3)
  have "v div 262144 mod 64 * 262144 + v div 4096 mod 64 * 4096 = v"
    by (simp only: add_0_right mult_zero_left)
  then show ?thesis
    by (simp only: decode_quanta.simps enc64_facts option.case prod.case sum.case simp_thms
          if_False if_True)
qed

lemma decode_encode_padded: "decode_quanta (bcEncoding_Encode bs) = Inr bs"
proof (induction bs rule: bcEncoding_Encode.induct)
  case (1 a b c rest)
  define val where "val = unat a * 65536 + unat b * 256 + unat c"
  note q = quantum3 [of a b c, folded val_def]
  have e: "bcEncoding_Encode (a # b # c # rest) =
      enc64 (val div 262144) # enc64 (val div 4096) # enc64 (val div 64) # enc64 val #
      bcEncoding_Encode rest"
    unfolding val_def by (simp only: bcEncoding_Encode.simps Let_def append.simps)
  show ?case
    unfolding e decode_quantum4 [OF q(1)] 1 by (simp only: sum.case q)
next
  case (2 a b)
  define val where "val = unat a * 65536 + unat b * 256"
  have v: "val = unat a * 65536 + unat b * 256 + unat (0 :: byte)" by (simp add: val_def)
  note q = quantum3 [of a b 0, folded v]
  have m: "val mod 64 = 0"
  proof -
    have "val = 64 * (unat a * 1024 + unat b * 4)" by (simp add: val_def)
    then show ?thesis by simp
  qed
  have e: "bcEncoding_Encode [a, b] =
      [enc64 (val div 262144), enc64 (val div 4096), enc64 (val div 64), padChar]"
    unfolding val_def by (simp only: bcEncoding_Encode.simps Let_def)
  show ?case
    unfolding e decode_quantum3 [OF q(1) m] by (simp only: q)
next
  case (3 a)
  define val where "val = unat a * 65536"
  have v: "val = unat a * 65536 + unat (0 :: byte) * 256 + unat (0 :: byte)" by (simp add: val_def)
  note q = quantum3 [of a 0 0, folded v]
  have m: "val mod 64 = 0"
  proof -
    have "val = 64 * (unat a * 1024)" by (simp add: val_def)
    then show ?thesis by simp
  qed
  have m2: "val div 64 mod 64 = 0"
  proof -
    have "val = 64 * (64 * (unat a * 16))" by (simp add: val_def)
    then have "val div 64 = 64 * (unat a * 16)" by simp
    then show ?thesis by simp
  qed
  have e: "bcEncoding_Encode [a] = [enc64 (val div 262144), enc64 (val div 4096), padChar, padChar]"
    unfolding val_def by (simp only: bcEncoding_Encode.simps Let_def)
  show ?case
    unfolding e decode_quantum2 [OF q(1) m m2] by (simp only: q)
next
  case 4
  show ?case by simp
qed

lemma filter_encode:
  "filter (\<lambda>c. c \<noteq> 0x0A \<and> c \<noteq> 0x0D) (bcEncoding_Encode bs) = bcEncoding_Encode bs"
  by (induction bs rule: bcEncoding_Encode.induct)
     (simp_all add: enc64_facts padChar_not_newline Let_def)

lemma bcEncoding_Encode_shape:
  "\<exists>ns. bcEncoding_Encode bs = map enc64 ns @ replicate ((3 - length bs mod 3) mod 3) padChar
      \<and> length ns = (8 * length bs + 5) div 6"
proof (induction bs rule: bcEncoding_Encode.induct)
  case (1 a b c rest)
  then obtain ns where ns: "bcEncoding_Encode rest =
      map enc64 ns @ replicate ((3 - length rest mod 3) mod 3) padChar"
    and l: "length ns = (8 * length rest + 5) div 6" by blast
  define val where "val = unat a * 65536 + unat b * 256 + unat c"
  let ?ms = "[val div 262144, val div 4096, val div 64, val] @ ns"
  have e: "bcEncoding_Encode (a # b # c # rest) =
      map enc64 ?ms @ replicate ((3 - length rest mod 3) mod 3) padChar"
    unfolding val_def
    by (simp only: bcEncoding_Encode.simps Let_def list.map map_append append.simps ns)
  have m: "length (a # b # c # rest) mod 3 = length rest mod 3" by simp
  have l': "length ?ms = (8 * length (a # b # c # rest) + 5) div 6"
    using l by simp
  show ?case
    unfolding m by (rule exI [of _ ?ms]) (use e l' in blast)
next
  case (2 a b)
  define val where "val = unat a * 65536 + unat b * 256"
  let ?ms = "[val div 262144, val div 4096, val div 64]"
  have e: "bcEncoding_Encode [a, b] = map enc64 ?ms @ replicate 1 padChar"
    unfolding val_def by (simp add: Let_def)
  have k: "(3 - length [a, b] mod 3) mod 3 = 1" and l: "length ?ms = (8 * length [a, b] + 5) div 6"
    by simp_all
  show ?case
    unfolding k by (rule exI [of _ ?ms]) (use e l in blast)
next
  case (3 a)
  define val where "val = unat a * 65536"
  let ?ms = "[val div 262144, val div 4096]"
  have e: "bcEncoding_Encode [a] = map enc64 ?ms @ replicate 2 padChar"
    unfolding val_def by (simp add: Let_def numeral_2_eq_2)
  have k: "(3 - length [a] mod 3) mod 3 = 2" and l: "length ?ms = (8 * length [a] + 5) div 6"
    by simp_all
  show ?case
    unfolding k by (rule exI [of _ ?ms]) (use e l in blast)
next
  case 4
  show ?case by simp
qed

lemma dropWhile_pad_enc64: "dropWhile (\<lambda>c. c = padChar) (map enc64 ms) = map enc64 ms"
  by (cases ms) (simp_all add: enc64_facts)

lemma dropWhile_pads:
  "dropWhile (\<lambda>c. c = padChar) (replicate k padChar @ ys) = dropWhile (\<lambda>c. c = padChar) ys"
  by (induction k) simp_all

lemma base64Encode_shape:
  "\<exists>ns. base64Encode bs = map enc64 ns \<and> length ns = (8 * length bs + 5) div 6
      \<and> bcEncoding_Encode bs = base64Encode bs @ replicate ((3 - length bs mod 3) mod 3) padChar"
proof -
  from bcEncoding_Encode_shape [of bs] obtain ns where
    e: "bcEncoding_Encode bs = map enc64 ns @ replicate ((3 - length bs mod 3) mod 3) padChar"
    and l: "length ns = (8 * length bs + 5) div 6" by blast
  have "base64Encode bs = rev (dropWhile (\<lambda>c. c = padChar) (map enc64 (rev ns)))"
    unfolding base64Encode_def e by (simp add: dropWhile_pads rev_map)
  then have "base64Encode bs = map enc64 ns"
    by (simp add: dropWhile_pad_enc64 rev_map)
  with e l show ?thesis by (intro exI [of _ ns]) simp
qed

lemma length_base64Encode: "length (base64Encode bs) = (8 * length bs + 5) div 6"
  using base64Encode_shape [of bs] by auto

lemma pad_count:
  fixes n :: nat
  assumes "n mod 3 \<noteq> 0"
  shows "4 - ((8 * n + 5) div 6) mod 4 = (3 - n mod 3) mod 3"
proof -
  define q where "q = n div 3"
  have n: "n = 3 * q + n mod 3" unfolding q_def by simp
  from assms have "n mod 3 = 1 \<or> n mod 3 = 2" by arith
  then show ?thesis
  proof
    assume r: "n mod 3 = 1"
    with n have "8 * n + 5 = 6 * (4 * q + 2) + 1" by simp
    then have "(8 * n + 5) div 6 = 4 * q + 2" by simp
    moreover have "(4 * q + 2) mod 4 = 2" by presburger
    ultimately show ?thesis using r by simp
  next
    assume r: "n mod 3 = 2"
    with n have "8 * n + 5 = 6 * (4 * q + 3) + 3" by simp
    then have "(8 * n + 5) div 6 = 4 * q + 3" by simp
    moreover have "(4 * q + 3) mod 4 = 3" by presburger
    ultimately show ?thesis using r by simp
  qed
qed

lemma base64_roundtrip:
  assumes "length bs mod 3 \<noteq> 0"
  shows "base64Decode (base64Encode bs) = Inr bs"
proof -
  let ?k = "(3 - length bs mod 3) mod 3"
  from base64Encode_shape [of bs]
  have e: "bcEncoding_Encode bs = base64Encode bs @ replicate ?k padChar" by blast
  have k: "4 - length (base64Encode bs) mod 4 = ?k"
    unfolding length_base64Encode using assms by (rule pad_count)
  have "base64Decode (base64Encode bs) = bcEncoding_Decode (base64Encode bs @ replicate ?k padChar)"
    by (simp only: base64Decode_def Let_def k)
  also have "\<dots> = bcEncoding_Decode (bcEncoding_Encode bs)"
    by (simp only: e [symmetric])
  also have "\<dots> = Inr bs"
    by (simp only: bcEncoding_Decode_def filter_encode decode_encode_padded)
  finally show ?thesis .
qed

section \<open>Lemmas: bcrypt\<close>

lemma ExpandKey_key_words:
  assumes "next_words k1 0 18 = next_words k2 0 18"
  shows "ExpandKey k1 c = ExpandKey k2 c" and "expandKeyWithSalt k1 s c = expandKeyWithSalt k2 s c"
  using assms by (simp_all add: ExpandKey_def expandKeyWithSalt_def xor_key_def)

lemma expensiveBlowfishSetup_eq:
  "expensiveBlowfishSetup key cost salt =
     (case base64Decode salt of
        Inl err \<Rightarrow> Inl err
      | Inr csalt \<Rightarrow>
          Inr (((\<lambda>c. ExpandKey csalt (ExpandKey (key @ [0]) c)) ^^ (2 ^ cost))
                 (expandKeyWithSalt (key @ [0]) csalt initCipher)))"
proof (cases "base64Decode salt")
  case (Inl err)
  then show ?thesis by (simp add: expensiveBlowfishSetup_def)
next
  case (Inr csalt)
  with base64Decode_nonempty [of salt] have "csalt \<noteq> []" by auto
  with Inr show ?thesis
    by (simp add: expensiveBlowfishSetup_def NewSaltedCipher_def Let_def)
qed

lemma expensiveBlowfishSetup_key_words:
  assumes "next_words (p1 @ [0]) 0 18 = next_words (p2 @ [0]) 0 18"
  shows "expensiveBlowfishSetup p1 cost salt = expensiveBlowfishSetup p2 cost salt"
proof -
  have "(\<lambda>c. ExpandKey csalt (ExpandKey (p1 @ [0]) c)) = (\<lambda>c. ExpandKey csalt (ExpandKey (p2 @ [0]) c))"
    for csalt
    using ExpandKey_key_words (1) [OF assms] by simp
  moreover have "expandKeyWithSalt (p1 @ [0]) csalt initCipher = expandKeyWithSalt (p2 @ [0]) csalt initCipher"
    for csalt
    using ExpandKey_key_words (2) [OF assms] by simp
  ultimately show ?thesis
    unfolding expensiveBlowfishSetup_eq by (simp split: sum.splits)
qed

lemma bcrypt_key_words:
  assumes "next_words (p1 @ [0]) 0 18 = next_words (p2 @ [0]) 0 18"
  shows "bcrypt p1 cost salt = bcrypt p2 cost salt"
  unfolding bcrypt_def expensiveBlowfishSetup_key_words [OF assms] ..

lemma length_Encrypt: "length (Encrypt c src) = 8"
  by (simp add: Encrypt_def be_bytes_def split: prod.splits)

lemma length_Encrypt_64: "length ((Encrypt c ^^ 64) x) = 8"
proof -
  have "(64 :: nat) = Suc 63" by simp
  then have "(Encrypt c ^^ 64) x = Encrypt c ((Encrypt c ^^ 63) x)"
    by (simp only: funpow.simps o_apply)
  then show ?thesis by (simp only: length_Encrypt)
qed

lemma length_encrypt_blocks: "length (encrypt_blocks c d) = 24"
  by (simp add: encrypt_blocks_def length_Encrypt_64)

lemma bcrypt_cases:
  "bcrypt pw cost salt =
     (case base64Decode salt of
        Inl err \<Rightarrow> Inl err
      | Inr csalt \<Rightarrow>
          Inr (base64Encode (take 23 (encrypt_blocks
                 (((\<lambda>c. ExpandKey csalt (ExpandKey (pw @ [0]) c)) ^^ (2 ^ nat cost))
                    (expandKeyWithSalt (pw @ [0]) csalt initCipher))
                 magicCipherData))))"
  by (simp add: bcrypt_def expensiveBlowfishSetup_eq maxCryptedHashSize_def split: sum.splits)

lemma bcrypt_length: "bcrypt pw cost salt = Inr h \<Longrightarrow> length h = 31"
  by (auto simp: bcrypt_cases length_base64Encode length_encrypt_blocks split: sum.splits)

lemma bcrypt_total:
  "base64Decode salt = Inr csalt \<Longrightarrow> \<exists>h. bcrypt pw cost salt = Inr h"
  by (simp add: bcrypt_cases)

lemma bcrypt_error:
  "bcrypt pw cost salt = Inl err \<longleftrightarrow> base64Decode salt = Inl err"
  by (simp add: bcrypt_cases split: sum.splits)

lemma Sprintf_02d_12: "Sprintf_02d 12 = [0x31, 0x32]"
  by code_simp

lemma header_12:
  "(copy_at ((replicate 60 (0 :: byte))[0 := 0x24, 1 := 0x32, 2 := 0x61, 3 := 0x24]) 4 [0x31, 0x32])[6 := 0x24]
     = [0x24, 0x32, 0x61, 0x24, 0x31, 0x32, 0x24] @ replicate 53 0"
  by code_simp

lemma copy_pre:
  "length pre = n \<Longrightarrow> length src = m \<Longrightarrow>
     copy_at (pre @ replicate (m + k) z) n src = (pre @ src) @ replicate k z"
  by (simp add: copy_at_def)

lemma hashed_Hash_12:
  assumes s: "length s = 22" and h: "length h = 31"
  shows "hashed_Hash \<lparr>h_hash = h, h_salt = s, h_cost = 12, h_major = majorVersion,
                       h_minor = minorVersion\<rparr> = prefix_2a_12 @ s @ h"
proof -
  let ?z = "0 :: byte"
  let ?pre = "[0x24, 0x32, 0x61, 0x24, 0x31, 0x32, 0x24] :: bytes"
  have a7: "copy_at (?pre @ replicate 53 ?z) 7 s = (?pre @ s) @ replicate 31 ?z"
    using copy_pre [of ?pre 7 s 22 31 ?z] s by simp
  have a8: "copy_at ((?pre @ s) @ replicate 31 ?z) 29 h = ((?pre @ s) @ h) @ replicate 0 ?z"
    using copy_pre [of "?pre @ s" 29 h 31 0 ?z] s h by simp
  have "hashed_Hash \<lparr>h_hash = h, h_salt = s, h_cost = 12, h_major = majorVersion,
                       h_minor = minorVersion\<rparr> =
     take 60 (copy_at (copy_at
        ((copy_at ((replicate 60 ?z)[0 := 0x24, 1 := 0x32, 2 := 0x61, 3 := 0x24]) 4 [0x31, 0x32])[6 := 0x24])
        7 s) 29 h)"
    by (simp add: hashed_Hash_def Let_def Sprintf_02d_12 majorVersion_def minorVersion_def
          encodedSaltSize_def encodedHashSize_def)
  also have "\<dots> = take 60 (((?pre @ s) @ h) @ replicate 0 ?z)"
    by (simp only: header_12 a7 a8)
  also have "\<dots> = prefix_2a_12 @ s @ h"
    using s h by (simp add: prefix_2a_12_def)
  finally show ?thesis .
qed

lemma Atoi2_12: "Atoi2 [0x31, 0x32] = Inr 12"
  by (simp add: Atoi2_def is_digit_def Let_def)

lemma newFromHash_12:
  assumes s: "length s = 22" and h: "length h = 31"
  shows "newFromHash (prefix_2a_12 @ s @ h) =
           Inr \<lparr>h_hash = h, h_salt = s, h_cost = 12, h_major = majorVersion, h_minor = minorVersion\<rparr>"
  using assms
  by (simp add: prefix_2a_12_def newFromHash_def Let_def minHashSize_def majorVersion_def minorVersion_def
        Atoi2_12 checkCost_def MinCost_def MaxCost_def encodedSaltSize_def)

lemma length_bytes_of_string [simp]: "length (bytes_of_string s) = length s"
  by (simp add: bytes_of_string_def)

lemma rand_Read_ok:
  "rand_fault w = None \<Longrightarrow>
     rand_Read n w = (Inr (map (entropy w) [rand_pos w ..< rand_pos w + n]),
                      w\<lparr>requests := requests w @ [RandRead n], rand_pos := rand_pos w + n\<rparr>)"
  by (simp add: rand_Read_def Let_def)

lemma GenerateFromPassword_ok:
  assumes "length pw \<le> 72" and "rand_fault w = None"
  shows "\<exists>h. bcrypt pw 12 (base64Encode (map (entropy w) [rand_pos w ..< rand_pos w + 16])) = Inr h
     \<and> GenerateFromPassword pw 12 w =
         (Inr (prefix_2a_12 @ base64Encode (map (entropy w) [rand_pos w ..< rand_pos w + 16]) @ h),
          w\<lparr>requests := requests w @ [RandRead 16], rand_pos := rand_pos w + 16\<rparr>)"
proof -
  let ?raw = "map (entropy w) [rand_pos w ..< rand_pos w + 16]"
  let ?salt = "base64Encode ?raw"
  have "length ?raw mod 3 \<noteq> 0" by simp
  then have "base64Decode ?salt = Inr ?raw" by (rule base64_roundtrip)
  then obtain h where h: "bcrypt pw 12 ?salt = Inr h" using bcrypt_total by blast
  then have lh: "length h = 31" by (rule bcrypt_length)
  have ls: "length ?salt = 22" by (simp add: length_base64Encode)
  have "GenerateFromPassword pw 12 w =
         (Inr (hashed_Hash \<lparr>h_hash = h, h_salt = ?salt, h_cost = 12, h_major = majorVersion,
                             h_minor = minorVersion\<rparr>),
          w\<lparr>requests := requests w @ [RandRead 16], rand_pos := rand_pos w + 16\<rparr>)"
    using assms h
    by (simp add: GenerateFromPassword_def newFromPassword_def rand_Read_ok checkCost_def
          MinCost_def MaxCost_def maxSaltSize_def Let_def)
  with h hashed_Hash_12 [OF ls lh] show ?thesis by simp
qed

lemma CompareHashAndPassword_generated:
  assumes s: "length s = 22" and h: "length h = 31"
  shows "CompareHashAndPassword (prefix_2a_12 @ s @ h) pw =
     (case bcrypt pw 12 s of
        Inl err \<Rightarrow> Some err
      | Inr h' \<Rightarrow> if h' = h then None else Some ErrMismatchedHashAndPassword)"
proof (cases "bcrypt pw 12 s")
  case (Inl err)
  then show ?thesis by (simp add: CompareHashAndPassword_def newFromHash_12 [OF s h])
next
  case (Inr h')
  then have h': "length h' = 31" by (rule bcrypt_length)
  from Inr show ?thesis
    by (simp add: CompareHashAndPassword_def newFromHash_12 [OF s h] Let_def
          hashed_Hash_12 [OF s h] hashed_Hash_12 [OF s h'] ConstantTimeCompare_def h h')
qed

lemma Set_password_ok:
  assumes "length P \<le> 72" and "rand_fault w = None"
  shows "\<exists>h. bcrypt (bytes_of_string P) 12
               (base64Encode (map (entropy w) [rand_pos w ..< rand_pos w + 16])) = Inr h
     \<and> Set_password p P w =
         ((None, p\<lparr>plaintext := Some P,
                   hash := Some (prefix_2a_12
                     @ base64Encode (map (entropy w) [rand_pos w ..< rand_pos w + 16]) @ h)\<rparr>),
          w\<lparr>requests := requests w @ [RandRead 16], rand_pos := rand_pos w + 16\<rparr>)"
proof -
  from assms have "length (bytes_of_string P) \<le> 72" by simp
  from GenerateFromPassword_ok [OF this assms(2)] show ?thesis
    by (auto simp: Set_password_def)
qed

lemma Matches_generated:
  assumes s: "length s = 22" and h: "length h = 31" and ok: "bcrypt pw0 12 s = Inr h"
  shows "Matches (p\<lparr>hash := Some (prefix_2a_12 @ s @ h)\<rparr>) P' =
           (bcrypt (bytes_of_string P') 12 s = Inr h, None)"
proof -
  from ok have "base64Decode s \<noteq> Inl err" for err
    using bcrypt_error [of pw0 12 s err] by simp
  then obtain h' where "bcrypt (bytes_of_string P') 12 s = Inr h'"
    using bcrypt_error [of "bytes_of_string P'" 12 s] by (cases "bcrypt (bytes_of_string P') 12 s") auto
  then show ?thesis
    by (simp add: Matches_def hash_bytes_def CompareHashAndPassword_generated [OF s h]
          errors_Is_def)
qed

lemma next_bytes_agree:
  assumes "\<forall>i<k. b ! ((j + i) mod length b) = b' ! ((j' + i) mod length b')"
    and "j < length b" and "j' < length b'"
  shows "fst (next_bytes b k j w) = fst (next_bytes b' k j' w)
       \<and> snd (next_bytes b k j w) = (j + k) mod length b
       \<and> snd (next_bytes b' k j' w) = (j' + k) mod length b'"
  using assms
proof (induction k arbitrary: j j' w)
  case 0
  then show ?case by simp
next
  case (Suc k)
  let ?n = "length b" and ?n' = "length b'"
  let ?j1 = "if j + 1 \<ge> ?n then 0 else j + 1"
  let ?j1' = "if j' + 1 \<ge> ?n' then 0 else j' + 1"
  from Suc.prems have j1: "?j1 = (j + 1) mod ?n" and j1': "?j1' = (j' + 1) mod ?n'"
    by (auto simp: mod_if le_Suc_eq)
  from Suc.prems have lt: "?j1 < ?n" "?j1' < ?n'" by auto
  from Suc.prems(1) have h0: "b ! j = b' ! j'"
    using Suc.prems(2,3) by (auto dest: spec [of _ 0])
  have hs: "\<forall>i<k. b ! ((?j1 + i) mod ?n) = b' ! ((?j1' + i) mod ?n')"
  proof (intro allI impI)
    fix i assume "i < k"
    then have "b ! ((j + Suc i) mod ?n) = b' ! ((j' + Suc i) mod ?n')"
      using Suc.prems(1) by auto
    moreover have "(?j1 + i) mod ?n = (j + Suc i) mod ?n"
      unfolding j1 by (simp add: mod_add_left_eq)
    moreover have "(?j1' + i) mod ?n' = (j' + Suc i) mod ?n'"
      unfolding j1' by (simp add: mod_add_left_eq)
    ultimately show "b ! ((?j1 + i) mod ?n) = b' ! ((?j1' + i) mod ?n')" by simp
  qed
  note IH = Suc.IH [OF hs lt, of "push_bit 8 w OR ucast (b ! j)"]
  have e: "(?j1 + k) mod ?n = (j + Suc k) mod ?n" "(?j1' + k) mod ?n' = (j' + Suc k) mod ?n'"
    unfolding j1 j1' by (simp_all add: mod_add_left_eq)
  have "next_bytes b (Suc k) j w = next_bytes b k ?j1 (push_bit 8 w OR ucast (b ! j))"
    by (simp add: Let_def)
  moreover have "next_bytes b' (Suc k) j' w = next_bytes b' k ?j1' (push_bit 8 w OR ucast (b ! j))"
    by (simp add: Let_def h0)
  ultimately show ?case using IH e by simp
qed

lemma next_words_agree:
  assumes "\<forall>i<4 * n. b ! ((j + i) mod length b) = b' ! ((j' + i) mod length b')"
    and "j < length b" and "j' < length b'"
  shows "next_words b j n = next_words b' j' n"
  using assms
proof (induction n arbitrary: j j')
  case 0
  then show ?case by simp
next
  case (Suc n)
  let ?n = "length b" and ?n' = "length b'"
  have a: "\<forall>i<4. b ! ((j + i) mod ?n) = b' ! ((j' + i) mod ?n')"
    using Suc.prems(1) by auto
  note g = next_bytes_agree [OF a Suc.prems(2,3), of 0]
  let ?j4 = "(j + 4) mod ?n" and ?j4' = "(j' + 4) mod ?n'"
  have pos: "0 < ?n" "0 < ?n'" using Suc.prems(2,3) by auto
  then have lt: "?j4 < ?n" "?j4' < ?n'" by simp_all
  have hs: "\<forall>i<4 * n. b ! ((?j4 + i) mod ?n) = b' ! ((?j4' + i) mod ?n')"
  proof (intro allI impI)
    fix i assume "i < 4 * n"
    then have "b ! ((j + (4 + i)) mod ?n) = b' ! ((j' + (4 + i)) mod ?n')"
      using Suc.prems(1) by auto
    moreover have "(?j4 + i) mod ?n = (j + (4 + i)) mod ?n"
      by (simp add: mod_add_left_eq add.assoc)
    moreover have "(?j4' + i) mod ?n' = (j' + (4 + i)) mod ?n'"
      by (simp add: mod_add_left_eq add.assoc)
    ultimately show "b ! ((?j4 + i) mod ?n) = b' ! ((?j4' + i) mod ?n')" by simp
  qed
  from Suc.IH [OF hs lt] g show ?case
    by (auto simp: getNextWord_def split: prod.splits)
qed

lemma next_words_stream:
  assumes "b \<noteq> []" and "b' \<noteq> []"
    and "\<forall>i<72. b ! (i mod length b) = b' ! (i mod length b')"
  shows "next_words b 0 18 = next_words b' 0 18"
  using next_words_agree [of 18 b 0 b' 0] assms by simp

lemma next_words_truncate:
  assumes "72 \<le> length pw" and "take 72 pw' = take 72 pw"
  shows "next_words (pw' @ [0]) 0 18 = next_words (pw @ [0]) 0 18"
proof (rule next_words_stream)
  have "length (take 72 pw') = length (take 72 pw)" by (simp add: assms(2))
  with assms(1) have l': "72 \<le> length pw'" by simp
  show "\<forall>i<72. (pw' @ [0]) ! (i mod length (pw' @ [0])) = (pw @ [0]) ! (i mod length (pw @ [0]))"
  proof (intro allI impI)
    fix i :: nat assume i: "i < 72"
    with assms(1) l' have "(pw' @ [0]) ! (i mod length (pw' @ [0])) = take 72 pw' ! i"
      "(pw @ [0]) ! (i mod length (pw @ [0])) = take 72 pw ! i"
      by (simp_all add: nth_append)
    with assms(2) show "(pw' @ [0]) ! (i mod length (pw' @ [0])) = (pw @ [0]) ! (i mod length (pw @ [0]))"
      by simp
  qed
qed simp_all

lemma next_words_cycle:
  "next_words ((pw @ [0] @ pw) @ [0]) 0 18 = next_words (pw @ [0]) 0 18"
proof (rule next_words_stream)
  let ?k = "pw @ [0 :: byte]"
  let ?n = "length ?k"
  have e: "(pw @ [0] @ pw) @ [0] = ?k @ ?k" by simp
  show "\<forall>i<72. ((pw @ [0] @ pw) @ [0]) ! (i mod length ((pw @ [0] @ pw) @ [0])) = ?k ! (i mod ?n)"
  proof (intro allI impI)
    fix i :: nat
    let ?m = "i mod (2 * ?n)"
    have m: "?m < 2 * ?n" by simp
    have "?n dvd 2 * ?n" by (rule dvd_triv_right)
    then have mm: "?m mod ?n = i mod ?n" by (rule mod_mod_cancel)
    have "(?k @ ?k) ! ?m = ?k ! (?m mod ?n)"
    proof (cases "?m < ?n")
      case True
      then show ?thesis by (simp add: nth_append)
    next
      case False
      then have le: "?n \<le> ?m" by simp
      have "a - n < n" if "a < 2 * n" "n \<le> a" for a n :: nat
        using that by arith
      from this [OF m le] have "?m - ?n < ?n" .
      then have "(?m - ?n) mod ?n = ?m - ?n" by (rule mod_less)
      with le_mod_geq [OF le] have "?m mod ?n = ?m - ?n" by (simp only:)
      with False show ?thesis by (simp add: nth_append)
    qed
    moreover have "length (?k @ ?k) = 2 * ?n" by simp
    ultimately show "((pw @ [0] @ pw) @ [0]) ! (i mod length ((pw @ [0] @ pw) @ [0])) = ?k ! (i mod ?n)"
      unfolding e mm by (simp only:)
  qed
qed simp_all

section \<open>Setting and checking a password\<close>

lemma bytes_of_string_append: "bytes_of_string (a @ b) = bytes_of_string a @ bytes_of_string b"
  by (simp add: bytes_of_string_def)

lemma bytes_of_string_NUL: "bytes_of_string [CHR 0x00] = [0]"
  by (simp add: bytes_of_string_def)

lemma bytes_of_string_take: "bytes_of_string (take n s) = take n (bytes_of_string s)"
  by (simp add: bytes_of_string_def take_map)

lemma Set_then_Matches_aux:
  assumes "length P \<le> 72" and "rand_fault w = None"
  defines "salt \<equiv> base64Encode (map (entropy w) [rand_pos w ..< rand_pos w + 16])"
  shows "\<exists>cred w'. Set_password p P w = ((None, cred), w')
        \<and> plaintext cred = Some P
        \<and> (\<forall>P'. Matches cred P' =
               (bcrypt (bytes_of_string P') 12 salt = bcrypt (bytes_of_string P) 12 salt, None))"
proof -
  from Set_password_ok [OF assms(1,2), of p] obtain h where
    h: "bcrypt (bytes_of_string P) 12 salt = Inr h"
    and s: "Set_password p P w =
         ((None, p\<lparr>plaintext := Some P, hash := Some (prefix_2a_12 @ salt @ h)\<rparr>),
          w\<lparr>requests := requests w @ [RandRead 16], rand_pos := rand_pos w + 16\<rparr>)"
    unfolding salt_def by blast
  have ls: "length salt = 22" by (simp add: salt_def length_base64Encode)
  from h have lh: "length h = 31" by (rule bcrypt_length)
  let ?cred = "p\<lparr>plaintext := Some P, hash := Some (prefix_2a_12 @ salt @ h)\<rparr>"
  have "Matches ?cred P' =
          (bcrypt (bytes_of_string P') 12 salt = bcrypt (bytes_of_string P) 12 salt, None)" for P'
    using Matches_generated [OF ls lh h, of "p\<lparr>plaintext := Some P\<rparr>" P'] h by simp
  with s show ?thesis by simp
qed

text \<open>
  C3, as stated, fails in its second half.  \<open>bcrypt\<close> reads its key as 18 words, taking
  the bytes of the password and its terminating zero byte over and over again, so the
  eight-byte password \<open>abcdefgh\<close> and the seventeen bytes \<open>abcdefgh\<close>, zero, \<open>abcdefgh\<close>
  give the same hash under any salt: after \<open>Set\<close> of the first, \<open>Matches\<close> accepts the
  second.
\<close>

theorem Matches_accepts_other_password_counterexample:
  "''abcdefgh'' @ CHR 0x00 # ''abcdefgh'' \<noteq> ''abcdefgh''
   \<and> 8 \<le> length ''abcdefgh'' \<and> length ''abcdefgh'' \<le> 72
   \<and> fst (fst (Set_password password_zero ''abcdefgh'' w0)) = None
   \<and> Matches (snd (fst (Set_password password_zero ''abcdefgh'' w0)))
        (''abcdefgh'' @ CHR 0x00 # ''abcdefgh'') = (True, None)"
proof -
  let ?P = "''abcdefgh''"
  let ?P' = "?P @ CHR 0x00 # ?P"
  let ?salt = "base64Encode (map (entropy w0) [rand_pos w0 ..< rand_pos w0 + 16])"
  have "length ?P \<le> 72" "rand_fault w0 = None" by (simp_all add: w0_def)
  from Set_then_Matches_aux [OF this, of password_zero] obtain cred w' where
    s: "Set_password password_zero ?P w0 = ((None, cred), w')"
    and m: "Matches cred ?P' =
              (bcrypt (bytes_of_string ?P') 12 ?salt = bcrypt (bytes_of_string ?P) 12 ?salt, None)"
    by blast
  have "bytes_of_string ?P' = bytes_of_string ?P @ [0] @ bytes_of_string ?P"
    by (simp add: bytes_of_string_def)
  then have "next_words (bytes_of_string ?P' @ [0]) 0 18 = next_words (bytes_of_string ?P @ [0]) 0 18"
    by (simp only: next_words_cycle)
  then have "bcrypt (bytes_of_string ?P') 12 ?salt = bcrypt (bytes_of_string ?P) 12 ?salt"
    by (rule bcrypt_key_words)
  with m have "Matches cred ?P' = (True, None)" by simp
  with s show ?thesis by simp
qed

text \<open>
  C3, amended.  For every password \<open>P\<close> of at most 72 bytes, when the random source
  works, \<open>Set(P)\<close> succeeds, and then \<open>Matches(P)\<close> returns \<open>(true, nil)\<close>.  For any
  other \<open>P'\<close>, \<open>Matches(P')\<close> returns no error, and \<open>true\<close> exactly when \<open>bcrypt\<close> gives
  \<open>P'\<close> the hash of \<open>P\<close> under the stored salt and the cost 12, \<open>false\<close> otherwise.  There
  are such \<open>P'\<close> other than \<open>P\<close>: \<open>P\<close>, a zero byte and \<open>P\<close> again; and, when \<open>P\<close> has 72
  bytes, every string that starts with \<open>P\<close>.
\<close>

theorem Set_then_Matches:
  "length P \<le> 72 \<and> rand_fault w = None \<longrightarrow>
     (\<exists>cred w'. Set_password p P w = ((None, cred), w')
        \<and> Matches cred P = (True, None)
        \<and> (\<forall>P'. Matches cred P' =
               (bcrypt (bytes_of_string P') 12
                   (base64Encode (map (entropy w) [rand_pos w ..< rand_pos w + 16]))
                 = bcrypt (bytes_of_string P) 12
                   (base64Encode (map (entropy w) [rand_pos w ..< rand_pos w + 16])), None))
        \<and> Matches cred (P @ CHR 0x00 # P) = (True, None)
        \<and> (\<forall>P'. length P = 72 \<and> take 72 P' = P \<longrightarrow> Matches cred P' = (True, None)))"
proof
  let ?salt = "base64Encode (map (entropy w) [rand_pos w ..< rand_pos w + 16])"
  assume a: "length P \<le> 72 \<and> rand_fault w = None"
  then have "length P \<le> 72" "rand_fault w = None" by simp_all
  from Set_then_Matches_aux [OF this, of p] obtain cred w' where
    s: "Set_password p P w = ((None, cred), w')"
    and m: "\<And>P'. Matches cred P' =
              (bcrypt (bytes_of_string P') 12 ?salt = bcrypt (bytes_of_string P) 12 ?salt, None)"
    by blast
  have 1: "Matches cred P = (True, None)" by (simp add: m)
  have "bytes_of_string (P @ CHR 0x00 # P) = bytes_of_string P @ [0] @ bytes_of_string P"
    by (simp add: bytes_of_string_def)
  then have "next_words (bytes_of_string (P @ CHR 0x00 # P) @ [0]) 0 18
               = next_words (bytes_of_string P @ [0]) 0 18"
    by (simp only: next_words_cycle)
  then have "bcrypt (bytes_of_string (P @ CHR 0x00 # P)) 12 ?salt = bcrypt (bytes_of_string P) 12 ?salt"
    by (rule bcrypt_key_words)
  then have 2: "Matches cred (P @ CHR 0x00 # P) = (True, None)" by (simp add: m)
  have 3: "Matches cred P' = (True, None)" if "length P = 72 \<and> take 72 P' = P" for P'
  proof -
    from that have "72 \<le> length (bytes_of_string P)"
      and "take 72 (bytes_of_string P') = take 72 (bytes_of_string P)"
      by (simp_all add: bytes_of_string_take [symmetric])
    then have "next_words (bytes_of_string P' @ [0]) 0 18 = next_words (bytes_of_string P @ [0]) 0 18"
      by (rule next_words_truncate)
    then have "bcrypt (bytes_of_string P') 12 ?salt = bcrypt (bytes_of_string P) 12 ?salt"
      by (rule bcrypt_key_words)
    then show ?thesis by (simp add: m)
  qed
  from s m 1 2 3 show "\<exists>cred w'. Set_password p P w = ((None, cred), w')
        \<and> Matches cred P = (True, None)
        \<and> (\<forall>P'. Matches cred P' =
               (bcrypt (bytes_of_string P') 12 ?salt = bcrypt (bytes_of_string P) 12 ?salt, None))
        \<and> Matches cred (P @ CHR 0x00 # P) = (True, None)
        \<and> (\<forall>P'. length P = 72 \<and> take 72 P' = P \<longrightarrow> Matches cred P' = (True, None))"
    by blast
qed

text \<open>
  The theorem at the password \<open>pa55word\<close> and at a password of 72 letters, with the
  random source of \<open>w0\<close>.
\<close>

theorem Set_then_Matches_witness:
  "length ''pa55word'' \<le> 72 \<and> rand_fault w0 = None
   \<and> fst (fst (Set_password password_zero ''pa55word'' w0)) = None
   \<and> Matches (snd (fst (Set_password password_zero ''pa55word'' w0))) ''pa55word'' = (True, None)
   \<and> Matches (snd (fst (Set_password password_zero ''pa55word'' w0)))
        (''pa55word'' @ CHR 0x00 # ''pa55word'') = (True, None)
   \<and> length (replicate 72 CHR ''a'') = 72
   \<and> take 72 (replicate 72 CHR ''a'' @ ''b'') = replicate 72 CHR ''a''
   \<and> Matches (snd (fst (Set_password password_zero (replicate 72 CHR ''a'') w0)))
        (replicate 72 CHR ''a'' @ ''b'') = (True, None)"
proof -
  have a: "length ''pa55word'' \<le> 72 \<and> rand_fault w0 = None" by (simp add: w0_def)
  with Set_then_Matches [of "''pa55word''" w0 password_zero] obtain cred w' where
    "Set_password password_zero ''pa55word'' w0 = ((None, cred), w')"
    "Matches cred ''pa55word'' = (True, None)"
    "Matches cred (''pa55word'' @ CHR 0x00 # ''pa55word'') = (True, None)"
    by blast
  with a have 1: "length ''pa55word'' \<le> 72 \<and> rand_fault w0 = None
   \<and> fst (fst (Set_password password_zero ''pa55word'' w0)) = None
   \<and> Matches (snd (fst (Set_password password_zero ''pa55word'' w0))) ''pa55word'' = (True, None)
   \<and> Matches (snd (fst (Set_password password_zero ''pa55word'' w0)))
        (''pa55word'' @ CHR 0x00 # ''pa55word'') = (True, None)"
    by simp
  let ?P = "replicate 72 CHR ''a''"
  have b: "length ?P \<le> 72 \<and> rand_fault w0 = None" by (simp add: w0_def)
  have c: "length ?P = 72 \<and> take 72 (?P @ ''b'') = ?P" by simp
  from b Set_then_Matches [of ?P w0 password_zero] obtain cred72 w72 where
    "Set_password password_zero ?P w0 = ((None, cred72), w72)"
    "\<forall>P'. length ?P = 72 \<and> take 72 P' = ?P \<longrightarrow> Matches cred72 P' = (True, None)"
    by blast
  with c have 2: "Matches (snd (fst (Set_password password_zero ?P w0))) (?P @ ''b'') = (True, None)"
    by simp
  from 1 2 c show ?thesis by blast
qed

section \<open>The results of Matches\<close>

lemma Matches_eq:
  "Matches p pw =
     (case CompareHashAndPassword (hash_bytes p) (bytes_of_string pw) of
        Some err \<Rightarrow> (if err = ErrMismatchedHashAndPassword then (False, None) else (False, Some err))
      | None \<Rightarrow> (True, None))"
  by (simp add: Matches_def hash_bytes_def errors_Is_def split: option.splits)

lemma newFromHash_not_mismatch: "newFromHash hs \<noteq> Inl ErrMismatchedHashAndPassword"
  by (auto simp: newFromHash_def Atoi2_def checkCost_def Let_def
        split: if_splits sum.splits option.splits prod.splits)

lemma decode_quanta_error: "decode_quanta xs = Inl err \<Longrightarrow> err = CorruptInputError"
  by (induction xs arbitrary: err rule: decode_quanta.induct)
     (auto split: option.splits if_splits sum.splits)

lemma bcrypt_not_mismatch: "bcrypt pw cost salt \<noteq> Inl ErrMismatchedHashAndPassword"
proof
  assume "bcrypt pw cost salt = Inl ErrMismatchedHashAndPassword"
  then have "base64Decode salt = Inl ErrMismatchedHashAndPassword" by (simp add: bcrypt_error)
  then have "ErrMismatchedHashAndPassword = CorruptInputError"
    unfolding base64Decode_def bcEncoding_Decode_def Let_def by (rule decode_quanta_error)
  then show False by simp
qed

lemma CompareHashAndPassword_mismatch:
  "CompareHashAndPassword hs pw = Some ErrMismatchedHashAndPassword \<longleftrightarrow>
     (\<exists>q h'. newFromHash hs = Inr q \<and> bcrypt pw (h_cost q) (h_salt q) = Inr h'
        \<and> hashed_Hash q \<noteq>
            hashed_Hash \<lparr>h_hash = h', h_salt = h_salt q, h_cost = h_cost q,
                         h_major = h_major q, h_minor = h_minor q\<rparr>)"
proof (cases "newFromHash hs")
  case (Inl err)
  with newFromHash_not_mismatch [of hs] show ?thesis
    by (auto simp: CompareHashAndPassword_def)
next
  case (Inr q)
  show ?thesis
  proof (cases "bcrypt pw (h_cost q) (h_salt q)")
    case (Inl err)
    with bcrypt_not_mismatch [of pw "h_cost q" "h_salt q"] Inr show ?thesis
      by (auto simp: CompareHashAndPassword_def)
  next
    case h': (Inr h')
    from Inr h' show ?thesis
      by (auto simp: CompareHashAndPassword_def ConstantTimeCompare_def Let_def)
  qed
qed

text \<open>
  A stored hash that lacks its last character still parses; serialized again it ends in
  a zero byte, which no hash does, so the comparison reports a mismatch whatever the
  attempt.
\<close>

lemma enc64_nonzero_table: "list_all (\<lambda>k. enc64 k \<noteq> 0) [0 ..< 64]"
  by code_simp

lemma enc64_nonzero: "enc64 n \<noteq> 0"
proof -
  have "n mod 64 \<in> set [0 ..< 64]" by simp
  with enc64_nonzero_table have "enc64 (n mod 64) \<noteq> 0"
    unfolding list_all_iff by blast
  then show ?thesis by (simp add: enc64_def)
qed

lemma bcrypt_last_nonzero:
  assumes "bcrypt pw cost salt = Inr h"
  shows "h \<noteq> [] \<and> last h \<noteq> 0"
proof -
  from assms obtain bs where h: "h = base64Encode bs" and bs: "length bs = 23"
    by (auto simp: bcrypt_cases length_encrypt_blocks split: sum.splits)
  from base64Encode_shape [of bs] obtain ns where
    ns: "base64Encode bs = map enc64 ns" and l: "length ns = (8 * length bs + 5) div 6"
    by blast
  from l bs have "ns \<noteq> []" by auto
  with h ns show ?thesis by (simp add: last_map enc64_nonzero)
qed

lemma hashed_Hash_12_short:
  assumes s: "length s = 22" and h: "length h = 30"
  shows "hashed_Hash \<lparr>h_hash = h, h_salt = s, h_cost = 12, h_major = majorVersion,
                       h_minor = minorVersion\<rparr> = prefix_2a_12 @ s @ h @ [0]"
proof -
  let ?z = "0 :: byte"
  let ?pre = "[0x24, 0x32, 0x61, 0x24, 0x31, 0x32, 0x24] :: bytes"
  have a7: "copy_at (?pre @ replicate 53 ?z) 7 s = (?pre @ s) @ replicate 31 ?z"
    using copy_pre [of ?pre 7 s 22 31 ?z] s by simp
  have a8: "copy_at ((?pre @ s) @ replicate 31 ?z) 29 h = ((?pre @ s) @ h) @ replicate 1 ?z"
    using copy_pre [of "?pre @ s" 29 h 30 1 ?z] s h by simp
  have "hashed_Hash \<lparr>h_hash = h, h_salt = s, h_cost = 12, h_major = majorVersion,
                       h_minor = minorVersion\<rparr> =
     take 60 (copy_at (copy_at
        ((copy_at ((replicate 60 ?z)[0 := 0x24, 1 := 0x32, 2 := 0x61, 3 := 0x24]) 4 [0x31, 0x32])[6 := 0x24])
        7 s) 29 h)"
    by (simp add: hashed_Hash_def Let_def Sprintf_02d_12 majorVersion_def minorVersion_def
          encodedSaltSize_def encodedHashSize_def)
  also have "\<dots> = take 60 (((?pre @ s) @ h) @ replicate 1 ?z)"
    by (simp only: header_12 a7 a8)
  also have "\<dots> = prefix_2a_12 @ s @ h @ [0]"
    using s h by (simp add: prefix_2a_12_def)
  finally show ?thesis .
qed

lemma newFromHash_12_short:
  assumes s: "length s = 22" and h: "length h = 30"
  shows "newFromHash (prefix_2a_12 @ s @ h) =
           Inr \<lparr>h_hash = h, h_salt = s, h_cost = 12, h_major = majorVersion, h_minor = minorVersion\<rparr>"
  using assms
  by (simp add: prefix_2a_12_def newFromHash_def Let_def minHashSize_def majorVersion_def
        minorVersion_def Atoi2_12 checkCost_def MinCost_def MaxCost_def encodedSaltSize_def)

lemma CompareHashAndPassword_cut_short:
  assumes s: "length s = 22" and h: "length h = 30" and ok: "base64Decode s = Inr csalt"
  shows "CompareHashAndPassword (prefix_2a_12 @ s @ h) pw = Some ErrMismatchedHashAndPassword"
proof -
  from bcrypt_total [OF ok] obtain h' where h': "bcrypt pw 12 s = Inr h'" by blast
  then have l': "length h' = 31" by (rule bcrypt_length)
  from bcrypt_last_nonzero [OF h'] have "last h' \<noteq> 0" by simp
  moreover have "last (h @ [0 :: byte]) = 0" by simp
  ultimately have ne: "h @ [0] \<noteq> h'" by metis
  from h' show ?thesis
    by (simp add: CompareHashAndPassword_def newFromHash_12_short [OF s h] Let_def
          hashed_Hash_12_short [OF s h] hashed_Hash_12 [OF s l'] ConstantTimeCompare_def ne)
qed

text \<open>
  C4.  Whatever the credential and the attempt: \<open>Matches\<close> returns \<open>(true, nil)\<close> exactly
  when \<open>CompareHashAndPassword\<close> returns \<open>nil\<close>; it returns \<open>(false, nil)\<close> exactly when the
  comparison returns \<open>ErrMismatchedHashAndPassword\<close>, which is when the stored hash
  parses, the attempt hashes under its salt and cost, and the two serialized hashes
  differ; and every other error of the comparison (a stored hash that is too short, has
  a wrong prefix, version or cost, or a salt the decoder rejects) is returned as it is,
  with \<open>false\<close>.
\<close>

theorem Matches_mismatch_or_error:
  "(Matches p pw = (True, None)
      \<longleftrightarrow> CompareHashAndPassword (hash_bytes p) (bytes_of_string pw) = None)
   \<and> (Matches p pw = (False, None)
      \<longleftrightarrow> CompareHashAndPassword (hash_bytes p) (bytes_of_string pw)
            = Some ErrMismatchedHashAndPassword)
   \<and> (\<forall>err. CompareHashAndPassword (hash_bytes p) (bytes_of_string pw) = Some err
          \<and> err \<noteq> ErrMismatchedHashAndPassword \<longrightarrow> Matches p pw = (False, Some err))
   \<and> (CompareHashAndPassword (hash_bytes p) (bytes_of_string pw) = Some ErrMismatchedHashAndPassword
      \<longleftrightarrow> (\<exists>q h'. newFromHash (hash_bytes p) = Inr q
              \<and> bcrypt (bytes_of_string pw) (h_cost q) (h_salt q) = Inr h'
              \<and> hashed_Hash q \<noteq>
                  hashed_Hash \<lparr>h_hash = h', h_salt = h_salt q, h_cost = h_cost q,
                               h_major = h_major q, h_minor = h_minor q\<rparr>))"
  unfolding CompareHashAndPassword_mismatch [symmetric]
  by (auto simp: Matches_eq split: option.splits)

lemma newFromHash_short: "length hs < 59 \<Longrightarrow> newFromHash hs = Inl ErrHashTooShort"
  by (simp add: newFromHash_def minHashSize_def)

text \<open>
  A credential without a hash and one with a hash that is no \<open>bcrypt\<close> hash give
  \<open>(false, ErrHashTooShort)\<close>; a credential set to a password gives \<open>(true, nil)\<close> for it;
  a credential whose hash lacks its last character gives \<open>(false, nil)\<close>.
\<close>

theorem Matches_mismatch_or_error_witness:
  "Matches password_zero ''pa55word'' = (False, Some ErrHashTooShort)
   \<and> Matches (password_zero\<lparr>hash := Some (bytes_of_string ''not a bcrypt hash'')\<rparr>) ''pa55word''
       = (False, Some ErrHashTooShort)
   \<and> Matches (snd (fst (Set_password password_zero ''pa55word'' w0))) ''pa55word'' = (True, None)
   \<and> Matches (password_zero\<lparr>hash :=
          Some (prefix_2a_12 @ base64Encode (replicate 16 0) @ replicate 30 0x2E)\<rparr>) ''pa55word''
       = (False, None)"
proof -
  let ?bad = "password_zero\<lparr>hash := Some (bytes_of_string ''not a bcrypt hash'')\<rparr>"
  let ?cut = "password_zero\<lparr>hash :=
          Some (prefix_2a_12 @ base64Encode (replicate 16 0) @ replicate 30 0x2E)\<rparr>"
  have c1: "CompareHashAndPassword (hash_bytes password_zero) (bytes_of_string ''pa55word'')
              = Some ErrHashTooShort"
    by (simp add: CompareHashAndPassword_def newFromHash_short hash_bytes_def password_zero_def)
  have c2: "CompareHashAndPassword (hash_bytes ?bad) (bytes_of_string ''pa55word'')
              = Some ErrHashTooShort"
    by (simp add: CompareHashAndPassword_def newFromHash_short hash_bytes_def)
  have a: "Matches password_zero ''pa55word'' = (False, Some ErrHashTooShort)"
    using Matches_mismatch_or_error [of password_zero "''pa55word''"] c1 by simp
  have b: "Matches ?bad ''pa55word'' = (False, Some ErrHashTooShort)"
    using Matches_mismatch_or_error [of ?bad "''pa55word''"] c2 by simp
  have "length ''pa55word'' \<le> 72" "rand_fault w0 = None" by (simp_all add: w0_def)
  from Set_then_Matches_aux [OF this, of password_zero] obtain cred w' where
    s: "Set_password password_zero ''pa55word'' w0 = ((None, cred), w')"
    and m: "Matches cred ''pa55word'' = (True, None)"
    by auto
  from m have "CompareHashAndPassword (hash_bytes cred) (bytes_of_string ''pa55word'') = None"
    by (simp add: Matches_eq split: option.splits if_splits)
  with Matches_mismatch_or_error [of cred "''pa55word''"]
  have c: "Matches cred ''pa55word'' = (True, None)" by blast
  have l: "length (base64Encode (replicate 16 (0 :: byte))) = 22" "length (replicate 30 (0x2E :: byte)) = 30"
    by (simp_all add: length_base64Encode)
  have "length (replicate 16 (0 :: byte)) mod 3 \<noteq> 0" by simp
  then have "base64Decode (base64Encode (replicate 16 0)) = Inr (replicate 16 0)"
    by (rule base64_roundtrip)
  from CompareHashAndPassword_cut_short [OF l this]
  have "CompareHashAndPassword (hash_bytes ?cut) (bytes_of_string ''pa55word'')
          = Some ErrMismatchedHashAndPassword"
    by (simp add: hash_bytes_def)
  with Matches_mismatch_or_error [of ?cut "''pa55word''"]
  have d: "Matches ?cut ''pa55word'' = (False, None)" by blast
  from a b c d s show ?thesis by simp
qed

section \<open>What Set keeps\<close>

text \<open>
  C6, as stated, fails: \<open>Set\<close> stores a pointer to the plaintext in the credential
  (\<open>p.plaintext = &plaintextpassword\<close>), where it stays.
\<close>

theorem Set_keeps_plaintext_counterexample:
  "fst (fst (Set_password password_zero ''pa55word'' w0)) = None
   \<and> plaintext (snd (fst (Set_password password_zero ''pa55word'' w0))) = Some ''pa55word''"
proof -
  have "length ''pa55word'' \<le> 72" "rand_fault w0 = None" by (simp_all add: w0_def)
  from Set_then_Matches_aux [OF this, of password_zero] show ?thesis by auto
qed

text \<open>
  C6, amended.  When \<open>Set\<close> succeeds, the credential holds the salted hash that
  \<open>GenerateFromPassword\<close> returned and the plaintext; when it fails, the credential is
  as it was.  Of the two, only the hash leaves the credential: the arguments of the
  \<open>INSERT\<close> and \<open>UPDATE\<close> statements hold the hash and not the plaintext, and the JSON
  form of a user is the same whatever its credential holds.
\<close>

theorem Set_stores_hash_and_plaintext:
  "(\<forall>cred w'. Set_password p P w = ((None, cred), w') \<longrightarrow>
       plaintext cred = Some P
     \<and> (\<exists>h. hash cred = Some h \<and> fst (GenerateFromPassword (bytes_of_string P) 12 w) = Inr h))
   \<and> (\<forall>err cred w'. Set_password p P w = ((Some err, cred), w') \<longrightarrow>
       cred = p \<and> fst (GenerateFromPassword (bytes_of_string P) 12 w) = Inl err)
   \<and> UserModel_Insert_args (user\<lparr>Password := \<lparr>plaintext = x, hash = h\<rparr>\<rparr>) =
       [ArgString (Username user), ArgString (Email user), ArgBytes h, ArgBool (Activated user)]
   \<and> UserModel_Update_args (user\<lparr>Password := \<lparr>plaintext = x, hash = h\<rparr>\<rparr>) =
       [ArgString (Username user), ArgString (Email user), ArgBytes h, ArgBool (Activated user),
        ArgString (User.UUID user), ArgInt (Version user)]
   \<and> json_Marshal_User enc (user\<lparr>Password := c\<rparr>) = json_Marshal_User enc user"
  by (auto simp: Set_password_def UserModel_Insert_args_def UserModel_Update_args_def
        json_Marshal_User_def User_fields_def split: prod.splits sum.splits)

text \<open>
  \<open>Set\<close> in \<open>w0\<close>, where it succeeds, and with a failing random source, where it
  returns the source's error and leaves the credential alone.
\<close>

theorem Set_stores_hash_and_plaintext_witness:
  "fst (fst (Set_password password_zero ''pa55word'' w0)) = None
   \<and> plaintext (snd (fst (Set_password password_zero ''pa55word'' w0))) = Some ''pa55word''
   \<and> hash (snd (fst (Set_password password_zero ''pa55word'' w0))) =
       Some (projr (fst (GenerateFromPassword (bytes_of_string ''pa55word'') 12 w0)))
   \<and> Set_password password_zero ''pa55word'' (w0\<lparr>rand_fault := Some (OtherError ''no entropy'')\<rparr>)
       = ((Some (OtherError ''no entropy''), password_zero),
          w0\<lparr>rand_fault := Some (OtherError ''no entropy''), requests := [RandRead 16]\<rparr>)"
proof -
  let ?wf = "w0\<lparr>rand_fault := Some (OtherError ''no entropy'')\<rparr>"
  have "length ''pa55word'' \<le> 72" "rand_fault w0 = None" by (simp_all add: w0_def)
  from Set_then_Matches_aux [OF this, of password_zero] obtain cred w' where
    s: "Set_password password_zero ''pa55word'' w0 = ((None, cred), w')" by auto
  with Set_stores_hash_and_plaintext [of password_zero "''pa55word''" w0]
  obtain h where "plaintext cred = Some ''pa55word''" "hash cred = Some h"
    "fst (GenerateFromPassword (bytes_of_string ''pa55word'') 12 w0) = Inr h"
    by blast
  with s have a: "fst (fst (Set_password password_zero ''pa55word'' w0)) = None
   \<and> plaintext (snd (fst (Set_password password_zero ''pa55word'' w0))) = Some ''pa55word''
   \<and> hash (snd (fst (Set_password password_zero ''pa55word'' w0))) =
       Some (projr (fst (GenerateFromPassword (bytes_of_string ''pa55word'') 12 w0)))"
    by simp
  have f: "Set_password password_zero ''pa55word'' ?wf
       = ((Some (OtherError ''no entropy''), password_zero),
          w0\<lparr>rand_fault := Some (OtherError ''no entropy''), requests := [RandRead 16]\<rparr>)"
    by (simp add: Set_password_def GenerateFromPassword_def newFromPassword_def rand_Read_def
          checkCost_def MinCost_def MaxCost_def maxSaltSize_def Let_def w0_def)
  with Set_stores_hash_and_plaintext [of password_zero "''pa55word''" ?wf]
  have "snd (fst (Set_password password_zero ''pa55word'' ?wf)) = password_zero" by simp
  with a f show ?thesis by simp
qed

section \<open>Further properties: round trip, revocation, the password policy\<close>

lemma New_ok:
  assumes "rand_fault w = None" and "db_fault w = None"
  shows "\<exists>token. fst (generateToken H uuid ttl scope w) = Inr token
     \<and> New H uuid ttl scope w =
         ((Some token, None),
          w\<lparr>requests := requests w @ [RandRead 16, Sha256Sum (bytes_of_string (Plaintext token)),
                 ExecInsertToken \<lparr>row_hash = Hash token, row_uuid = Token.UUID token,
                                  row_expiry = Expiry token, row_scope = Scope token\<rparr>],
             rand_pos := rand_pos w + 16,
             tokens_table := tokens_table w @
                 [\<lparr>row_hash = Hash token, row_uuid = Token.UUID token,
                   row_expiry = Expiry token, row_scope = Scope token\<rparr>]\<rparr>)"
  using assms
  by (simp add: New_def generateToken_def rand_Read_def sha256_Sum256_def Insert_def Let_def)

text \<open>
  X1.  Round trip: a token issued with a positive time to live to an owner who is in the
  users table (once), when random source and database work and no stored token has the
  new token's digest, resolves that owner when it is verified at once with its scope
  and plaintext.
\<close>

theorem New_then_GetForToken:
  assumes "rand_fault w = None" and "db_fault w = None" and "0 < sint ttl"
    and "filter (\<lambda>u. col_uuid u = uuid) (users_table w) = [owner]"
    and "\<forall>r \<in> set (tokens_table w). row_hash r \<noteq>
           H (bytes_of_string (base32_EncodeToString (map (entropy w) [rand_pos w ..< rand_pos w + 16])))"
  shows "\<exists>token w'. New H uuid ttl scope w = ((Some token, None), w')
     \<and> fst (GetForToken H scope (Plaintext token) w') = Inr (Scan_user owner)"
proof -
  from New_ok [OF assms(1,2), of H uuid ttl scope] obtain token w' where
    g: "fst (generateToken H uuid ttl scope w) = Inr token"
    and n: "New H uuid ttl scope w = ((Some token, None), w')"
    and w': "w' = w\<lparr>requests := requests w @ [RandRead 16, Sha256Sum (bytes_of_string (Plaintext token)),
                 ExecInsertToken \<lparr>row_hash = Hash token, row_uuid = Token.UUID token,
                                  row_expiry = Expiry token, row_scope = Scope token\<rparr>],
             rand_pos := rand_pos w + 16,
             tokens_table := tokens_table w @
                 [\<lparr>row_hash = Hash token, row_uuid = Token.UUID token,
                   row_expiry = Expiry token, row_scope = Scope token\<rparr>]\<rparr>"
    by blast
  from g assms(1) have t:
    "Plaintext token = base32_EncodeToString (map (entropy w) [rand_pos w ..< rand_pos w + 16])"
    "Hash token = H (bytes_of_string (Plaintext token))" "Expiry token = now w + sint ttl"
    "Token.UUID token = uuid" "Scope token = scope"
    by (auto simp: generateToken_def rand_Read_def sha256_Sum256_def time_Add_def Let_def)
  let ?h = "H (bytes_of_string (Plaintext token))"
  have old: "filter (\<lambda>r. col_uuid u = row_uuid r \<and> token_matches ?h scope (now w) r) (tokens_table w) = []"
    for u
    using assms(5) t(1) by (auto simp: filter_empty_conv token_matches_def)
  let ?row = "\<lparr>row_hash = Hash token, row_uuid = Token.UUID token,
                row_expiry = Expiry token, row_scope = Scope token\<rparr>"
  have tt: "tokens_table w' = tokens_table w @ [?row]" and nn: "now w' = now w"
    and uu: "users_table w' = users_table w"
    unfolding w' by simp_all
  have per: "map (\<lambda>r. u)
               (filter (\<lambda>r. col_uuid u = row_uuid r \<and> token_matches ?h scope (now w) r)
                  (tokens_table w @ [?row])) = (if col_uuid u = uuid then [u] else [])" for u
    using old [of u] assms(3) t by (simp add: token_matches_def)
  have "select_user_for_token ?h scope (now w') w' =
          concat (map (\<lambda>u. if col_uuid u = uuid then [u] else []) (users_table w))"
    unfolding select_user_for_token_def tt nn uu per ..
  also have "\<dots> = filter (\<lambda>u. col_uuid u = uuid) (users_table w)"
  proof -
    have "concat (map (\<lambda>u. if col_uuid u = uuid then [u] else []) us)
            = filter (\<lambda>u. col_uuid u = uuid) us" for us :: "user_row list"
      by (induction us) simp_all
    then show ?thesis .
  qed
  finally have "select_user_for_token ?h scope (now w') w' = [owner]"
    using assms(4) by simp
  moreover have "db_fault w' = None" using assms(2) w' by simp
  ultimately have "fst (GetForToken H scope (Plaintext token) w') = Inr (Scan_user owner)"
    using GetForToken_no_fault [of w' H scope "Plaintext token"] by simp
  with n show ?thesis by blast
qed


text \<open>
  The round trip in the world where \<open>alice\<close> has registered and holds no token yet.
\<close>

theorem New_then_GetForToken_witness:
  "fst (New H0 ''6b1f0e9a-0001'' one_hour ''activation'' (w0\<lparr>users_table := [alice]\<rparr>))
     = (Some tok0, None)
   \<and> fst (GetForToken H0 ''activation'' (Plaintext tok0)
            (snd (New H0 ''6b1f0e9a-0001'' one_hour ''activation'' (w0\<lparr>users_table := [alice]\<rparr>))))
     = Inr (Scan_user alice)"
proof -
  let ?w = "w0\<lparr>users_table := [alice]\<rparr>"
  have a: "rand_fault ?w = None" "db_fault ?w = None" "0 < sint one_hour"
    "filter (\<lambda>u. col_uuid u = ''6b1f0e9a-0001'') (users_table ?w) = [alice]"
    "\<forall>r \<in> set (tokens_table ?w). row_hash r \<noteq>
           H0 (bytes_of_string (base32_EncodeToString (map (entropy ?w) [rand_pos ?w ..< rand_pos ?w + 16])))"
    by (simp_all add: w0_def one_hour_def alice_def)
  from New_then_GetForToken [where w = ?w and H = H0 and ttl = one_hour and owner = alice
      and uuid = "''6b1f0e9a-0001''" and scope = "''activation''", OF a]
  obtain token w' where
    n: "New H0 ''6b1f0e9a-0001'' one_hour ''activation'' ?w = ((Some token, None), w')"
    and g: "fst (GetForToken H0 ''activation'' (Plaintext token) w') = Inr (Scan_user alice)"
    by blast
  have "fst (fst (New H0 ''6b1f0e9a-0001'' one_hour ''activation'' ?w)) = Some tok0"
    by (simp add: New_def Insert_def generateToken_def rand_Read_def sha256_Sum256_def time_Add_def
          Let_def w0_def tok0_def one_hour_def upt_rec enc32_def encodeStd_def)
  with n have "token = tok0" by simp
  with n g show ?thesis by simp
qed

text \<open>
  X2.  Revocation: when the statement runs, \<open>DeleteAllForUser\<close> removes exactly the
  token rows of the given scope and owner; a plaintext whose live rows of that scope
  all belonged to that owner is then not found; and the rows of other scopes and of
  other owners stay.
\<close>

theorem DeleteAllForUser_revokes:
  assumes "db_fault w = None"
  shows "fst (DeleteAllForUser scope uuid w) = None
     \<and> set (tokens_table (snd (DeleteAllForUser scope uuid w))) =
         {r \<in> set (tokens_table w). \<not> (row_scope r = scope \<and> row_uuid r = uuid)}
     \<and> users_table (snd (DeleteAllForUser scope uuid w)) = users_table w
     \<and> ((\<forall>r \<in> set (tokens_table w).
            row_hash r = H (bytes_of_string tokenPlaintext) \<and> row_scope r = scope
              \<longrightarrow> row_uuid r = uuid)
         \<longrightarrow> fst (GetForToken H scope tokenPlaintext (snd (DeleteAllForUser scope uuid w)))
               = Inl ErrRecordNotFound)"
proof -
  let ?w' = "snd (DeleteAllForUser scope uuid w)"
  have w': "?w' = w\<lparr>requests := requests w @ [ExecDeleteTokens scope uuid],
                    tokens_table :=
                      filter (\<lambda>t. \<not> (row_scope t = scope \<and> row_uuid t = uuid)) (tokens_table w)\<rparr>"
    and r: "fst (DeleteAllForUser scope uuid w) = None"
    using assms by (simp_all add: DeleteAllForUser_def Let_def)
  have f: "db_fault ?w' = None" using assms w' by simp
  have t: "set (tokens_table ?w') =
         {r \<in> set (tokens_table w). \<not> (row_scope r = scope \<and> row_uuid r = uuid)}"
    unfolding w' by auto
  have u: "users_table ?w' = users_table w" unfolding w' by simp
  have g: "fst (GetForToken H scope tokenPlaintext ?w') = Inl ErrRecordNotFound"
    if "\<forall>r \<in> set (tokens_table w).
            row_hash r = H (bytes_of_string tokenPlaintext) \<and> row_scope r = scope
              \<longrightarrow> row_uuid r = uuid"
  proof -
    from that t have "set (select_user_for_token (H (bytes_of_string tokenPlaintext)) scope
                        (now ?w') ?w') = {}"
      unfolding set_select_user_for_token by (auto simp: token_matches_def)
    then have "select_user_for_token (H (bytes_of_string tokenPlaintext)) scope (now ?w') ?w' = []"
      by simp
    with GetForToken_no_fault [OF f, of H scope tokenPlaintext] show ?thesis
      by simp
  qed
  from r t u g show ?thesis by blast
qed

theorem DeleteAllForUser_revokes_witness:
  "fst (GetForToken H0 ''activation'' (Plaintext tok0) w1) = Inr (Scan_user alice)
   \<and> fst (DeleteAllForUser ''activation'' ''6b1f0e9a-0001'' w1) = None
   \<and> tokens_table (snd (DeleteAllForUser ''activation'' ''6b1f0e9a-0001'' w1)) = []
   \<and> fst (GetForToken H0 ''activation'' (Plaintext tok0)
            (snd (DeleteAllForUser ''activation'' ''6b1f0e9a-0001'' w1))) = Inl ErrRecordNotFound
   \<and> tokens_table (snd (DeleteAllForUser ''authentication'' ''6b1f0e9a-0001'' w1)) = tokens_table w1"
proof -
  have a: "db_fault w1 = None" by (simp add: w1_def w0_def)
  have b: "\<forall>r \<in> set (tokens_table w1).
            row_hash r = H0 (bytes_of_string (Plaintext tok0)) \<and> row_scope r = ''activation''
              \<longrightarrow> row_uuid r = ''6b1f0e9a-0001''"
    by (simp add: w1_def w0_def)
  from DeleteAllForUser_revokes [OF a, of "''activation''" "''6b1f0e9a-0001''" H0 "Plaintext tok0"] b
  have "fst (DeleteAllForUser ''activation'' ''6b1f0e9a-0001'' w1) = None
     \<and> fst (GetForToken H0 ''activation'' (Plaintext tok0)
            (snd (DeleteAllForUser ''activation'' ''6b1f0e9a-0001'' w1))) = Inl ErrRecordNotFound"
    by blast
  moreover have "fst (GetForToken H0 ''activation'' (Plaintext tok0) w1) = Inr (Scan_user alice)"
    by (simp add: GetForToken_no_fault select_user_for_token_def token_matches_def w1_def w0_def
          alice_def tok0_def)
  moreover have "tokens_table (snd (DeleteAllForUser ''activation'' ''6b1f0e9a-0001'' w1)) = []"
    "tokens_table (snd (DeleteAllForUser ''authentication'' ''6b1f0e9a-0001'' w1)) = tokens_table w1"
    by (simp_all add: DeleteAllForUser_def Let_def w1_def w0_def)
  ultimately show ?thesis by blast
qed

text \<open>
  X3.  The password policy: a fresh validator is still valid after
  \<open>ValidatePasswordPlaintext\<close> exactly when the password has between 8 and 72 bytes;
  after \<open>ValidateUsername\<close>, exactly when the name has between 3 and 15 bytes.
\<close>

theorem ValidatePasswordPlaintext_accepts:
  "(Valid (ValidatePasswordPlaintext validator_New pw) \<longleftrightarrow> 8 \<le> length pw \<and> length pw \<le> 72)
   \<and> (Valid (ValidateUsername validator_New username)
        \<longleftrightarrow> 3 \<le> length username \<and> length username \<le> 15)"
  by (auto simp: ValidatePasswordPlaintext_def ValidateUsername_def Valid_Check Let_def
        Valid_validator_New)

end
